theory Spec2Isabelle
  imports Main "HOL-Library.Word"
begin

section \<open>ROIs, keys and the metadata bag\<close>

text \<open>
  Coordinates are Python integers. A ROI is the pair \<open>(start, stop)\<close> of a half-open box.
\<close>

type_synonym coord = "int list"
type_synonym roi = "coord \<times> coord"

datatype error =
    AssertionError
  | IndexError
  | KeyError
  | ValueError
  | TypeError
  | UnboundLocalError
  | AttributeError
  | OverflowError
  | InvalidRoiException

datatype dtype = UInt8 | UInt32 | Int32 | Float32

text \<open>
  Modelled from the spec: the metadata bag of a slot (class MetaDict of lazyflow, not part
  of generic.py). Section 3 of the spec lists its fields: shape, element type, axis tags,
  value range, ideal and maximum block shape, and the readiness flag. Axis tags are kept as
  the list of their keys; an unset field is \<open>None\<close>, and axis tags that were never set are
  the empty list.
\<close>

record meta =
  shape :: "int list option"
  axistags :: "string list"
  dtype :: dtype
  drange :: "int list option"
  ideal_blockshape :: "int list option"
  max_blockshape :: "int list option"
  NOTREADY :: bool

text \<open>The metadata of a slot to which nothing has been assigned yet.\<close>

definition unset_meta :: meta where
  "unset_meta = \<lparr>shape = None, axistags = [], dtype = UInt8, drange = None,
     ideal_blockshape = None, max_blockshape = None, NOTREADY = False\<rparr>"

text \<open>
  Modelled from the spec: \<open>meta.assignFrom(other)\<close> makes the receiver a copy of the other
  bag (``Output metadata is a modified copy of the input's metadata'').
\<close>

definition assignFrom :: "meta \<Rightarrow> meta \<Rightarrow> meta" where
  "assignFrom self other = other"

text \<open>
  Modelled from the spec: \<open>meta.getAxisKeys()\<close> is the list of axis keys and
  \<open>meta.getTaggedShape()\<close> the ordered dictionary built from the pairs of key and extent
  (a later pair overrides an earlier one with the same key).
\<close>

definition getAxisKeys :: "meta \<Rightarrow> string list" where
  "getAxisKeys m = axistags m"

definition getTaggedShape :: "meta \<Rightarrow> (string \<rightharpoonup> int)" where
  "getTaggedShape m = map_of (rev (zip (axistags m) (case shape m of None \<Rightarrow> [] | Some sh \<Rightarrow> sh)))"

text \<open>Python's \<open>xs[-1]\<close>: the last element, IndexError on the empty sequence.\<close>

definition py_last :: "'a list \<Rightarrow> error + 'a" where
  "py_last xs = (if xs = [] then Inl IndexError else Inr (last xs))"

text \<open>Python's \<open>xs[-1] = v\<close>.\<close>

definition set_last :: "'a list \<Rightarrow> 'a \<Rightarrow> 'a list" where
  "set_last xs v = xs[length xs - 1 := v]"

text \<open>Python's \<open>list.insert(k, v)\<close> for a non-negative position (clamped to the length).\<close>

definition insert_at :: "nat \<Rightarrow> 'a \<Rightarrow> 'a list \<Rightarrow> 'a list" where
  "insert_at k v xs = take k xs @ v # drop k xs"

text \<open>\<open>list.pop(k)\<close> as used on coordinate vectors: the list without position \<open>k\<close>.\<close>

definition pop_at :: "nat \<Rightarrow> 'a list \<Rightarrow> 'a list" where
  "pop_at k xs = take k xs @ drop (Suc k) xs"

text \<open>\<open>axistags.index(flag)\<close>: the first position of the key (the length when absent).\<close>

fun index_of :: "'a \<Rightarrow> 'a list \<Rightarrow> nat" where
  "index_of k [] = 0"
| "index_of k (x # xs) = (if x = k then 0 else Suc (index_of k xs))"

section \<open>OpSubRegion\<close>

text \<open>
  \<open>OpSubRegion.setupOutputs\<close>: the arguments are the value of the Roi slot, the metadata of
  Input and the current metadata of Output; the result is the new metadata of Output.
  \<open>(start >= stop).any()\<close> compares the two vectors position by position.
\<close>

definition OpSubRegion_setupOutputs :: "roi \<Rightarrow> meta \<Rightarrow> meta \<Rightarrow> error + meta" where
  "OpSubRegion_setupOutputs r input_meta output_meta =
     (let start = fst r; stop = snd r in
      if length start \<noteq> length stop then Inr (output_meta\<lparr>NOTREADY := True\<rparr>)
      else case shape input_meta of
        None \<Rightarrow> Inl TypeError
      | Some sh \<Rightarrow>
          if length stop \<noteq> length sh then Inr (output_meta\<lparr>NOTREADY := True\<rparr>)
          else if list_ex (\<lambda>(a, b). a \<ge> b) (zip start stop) then Inr (output_meta\<lparr>NOTREADY := True\<rparr>)
          else Inr ((assignFrom output_meta input_meta)\<lparr>shape := Some (map2 (\<lambda>a b. b - a) start stop)\<rparr>))"

section \<open>OpMultiChannelSelector\<close>

text \<open>
  \<open>numpy.asarray(xs, dtype=numpy.int64)\<close> raises OverflowError unless every entry is a
  64-bit signed integer.
\<close>

definition fits_int64 :: "int list \<Rightarrow> bool" where
  "fits_int64 xs = list_all (\<lambda>x. - (2 ^ 63) \<le> x \<and> x < 2 ^ 63) xs"

text \<open>
  \<open>OpMultiChannelSelector.setupOutputs\<close>: raises ValueError unless the last axis key is
  \<open>c\<close>; marks Output not ready for an empty selection or a channel beyond the input;
  otherwise copies the metadata and sets the channel extent and the block shape hints.
  \<open>getAxisKeys()[-1]\<close> on an input without axes is an IndexError, and a missing
  \<open>c\<close> entry of the tagged shape a KeyError.
\<close>

definition OpMultiChannelSelector_setupOutputs :: "int list \<Rightarrow> meta \<Rightarrow> meta \<Rightarrow> error + meta" where
  "OpMultiChannelSelector_setupOutputs selected_channels input_meta output_meta =
     (case py_last (getAxisKeys input_meta) of
        Inl e \<Rightarrow> Inl e
      | Inr k \<Rightarrow>
          if k \<noteq> ''c'' then Inl ValueError
          else case getTaggedShape input_meta ''c'' of
            None \<Rightarrow> Inl KeyError
          | Some max_channel \<Rightarrow>
              if length selected_channels = 0 \<or> list_ex (\<lambda>x. x \<ge> max_channel) selected_channels
              then Inr (output_meta\<lparr>NOTREADY := True\<rparr>)
              else
                (case shape input_meta of
                   None \<Rightarrow> Inl TypeError
                 | Some in_shape \<Rightarrow>
                     let m1 = (assignFrom output_meta input_meta)
                                \<lparr>shape := Some (butlast in_shape @ [int (length selected_channels)])\<rparr>
                     in case ideal_blockshape m1 of
                          Some ideal \<Rightarrow>
                            if length ideal \<noteq> length in_shape then Inl AssertionError
                            else if \<not> fits_int64 ideal then Inl OverflowError
                            else
                              (let m2 = m1\<lparr>ideal_blockshape := Some (set_last ideal 1)\<rparr>
                               in case max_blockshape m2 of
                                    Some mb \<Rightarrow>
                                      if length mb \<noteq> length in_shape then Inl AssertionError
                                      else if \<not> fits_int64 mb then Inl OverflowError
                                      else Inr (m2\<lparr>max_blockshape :=
                                                  Some (set_last mb (int (length selected_channels)))\<rparr>)
                                  | None \<Rightarrow> Inr m2)
                        | None \<Rightarrow>
                            (case max_blockshape m1 of
                               Some mb \<Rightarrow>
                                 if length mb \<noteq> length in_shape then Inl AssertionError
                                 else if \<not> fits_int64 mb then Inl OverflowError
                                 else Inr (m1\<lparr>max_blockshape :=
                                             Some (set_last mb (int (length selected_channels)))\<rparr>)
                             | None \<Rightarrow> Inr m1)))"

section \<open>Keys, blocks and slots\<close>

text \<open>
  Modelled from the spec: the ROI type ``supplies slicing conversion'' (module
  \<open>lazyflow.roi\<close>, not part of generic.py). A slice with explicit bounds is the pair of its
  start and stop; a key is a tuple of slices. \<open>roiToSlice\<close> zips the two vectors of a ROI
  into a key, \<open>sliceToRoi\<close> takes a key of explicit slices apart again (the shape argument
  only matters for open slices, which the operators do not pass to it).
\<close>

type_synonym slice = "int \<times> int"
type_synonym key = "slice list"

definition roiToSlice :: "coord \<Rightarrow> coord \<Rightarrow> key" where
  "roiToSlice start stop = zip start stop"

definition sliceToRoi :: "key \<Rightarrow> roi" where
  "sliceToRoi k = (map fst k, map snd k)"

text \<open>
  The elements of an array (a fetched block, a result buffer, the data behind a slot), by
  index vector. The extent of a block is known from the ROI it was fetched for.
\<close>

type_synonym 'a block = "coord \<Rightarrow> 'a"

text \<open>
  Modelled from the spec: the port contract of section 6. A slot carries its metadata,
  knows whether it is connected to an upstream slot (\<open>upstream_slot is not None\<close>), and
  answers \<open>request(roi)\<close> with the block for that ROI, indexed from zero, or with the
  exception raised upstream. Waiting on a request and \<open>writeInto\<close> are modelled by using
  the block where it is written.
\<close>

record 'a slot =
  slot_meta :: meta
  has_upstream :: bool
  request :: "roi \<Rightarrow> error + 'a block"

text \<open>A slot backed by an array: the block for a ROI is the array shifted by the start.\<close>

definition array_slot :: "meta \<Rightarrow> 'a block \<Rightarrow> 'a slot" where
  "array_slot m data =
     \<lparr>slot_meta = m, has_upstream = True, request = (\<lambda>r. Inr (\<lambda>i. data (map2 (+) i (fst r))))\<rparr>"

text \<open>
  \<open>req.writeInto(result[reskey])\<close> where \<open>reskey\<close> is \<open>slice(None)\<close> everywhere except
  \<open>slice(lo, hi)\<close> on axis \<open>ax\<close>: the fetched block lands in that slab of the buffer.
\<close>

definition write_slab :: "nat \<Rightarrow> int \<Rightarrow> int \<Rightarrow> 'a block \<Rightarrow> 'a block \<Rightarrow> 'a block" where
  "write_slab ax lo hi src result =
     (\<lambda>i. if ax < length i \<and> lo \<le> i ! ax \<and> i ! ax < hi then src (i[ax := i ! ax - lo]) else result i)"

text \<open>
  The same with the integer \<open>pos\<close> instead of a slice on axis \<open>ax\<close>: the destination has one
  axis less, and so has the fetched block.
\<close>

definition write_plane :: "nat \<Rightarrow> int \<Rightarrow> 'a block \<Rightarrow> 'a block \<Rightarrow> 'a block" where
  "write_plane ax pos src result =
     (\<lambda>i. if ax < length i \<and> i ! ax = pos then src (pop_at ax i) else result i)"

text \<open>All index vectors of an array of the given shape, in row-major order.\<close>

fun indices :: "int list \<Rightarrow> coord list" where
  "indices [] = [[]]"
| "indices (n # ns) = concat (map (\<lambda>k. map ((#) k) (indices ns)) [0..n - 1])"

text \<open>\<open>numpy.any(data)\<close> for a block of the given shape.\<close>

definition np_any :: "int list \<Rightarrow> ('a::zero) block \<Rightarrow> bool" where
  "np_any sh data = list_ex (\<lambda>i. data i \<noteq> 0) (indices sh)"

text \<open>
  \<open>numpy.argmax\<close> along one axis: the first position of the largest value; ValueError on
  an empty sequence.
\<close>

fun argmax_from :: "'a::linorder \<Rightarrow> nat \<Rightarrow> nat \<Rightarrow> 'a list \<Rightarrow> nat" where
  "argmax_from best best_k k [] = best_k"
| "argmax_from best best_k k (x # xs) =
     (if best < x then argmax_from x k (Suc k) xs else argmax_from best best_k (Suc k) xs)"

definition np_argmax :: "'a::linorder list \<Rightarrow> error + nat" where
  "np_argmax xs = (case xs of [] \<Rightarrow> Inl ValueError | x # rest \<Rightarrow> Inr (argmax_from x 0 1 rest))"

section \<open>OpMaxChannelIndicatorOperator\<close>

text \<open>
  \<open>OpMaxChannelIndicatorOperator.execute\<close>. The result is the list of ROIs fetched from
  Input, in order, and either the exception raised or the result buffer. The star
  assignment \<open>*key, c = roi.toSlice()\<close> fails on a ROI without axes; \<open>slice(None)\<close> on the
  channel axis is the whole channel range of Input. The buffer holds \<open>uint8\<close> values.
  \<open>numpy.argmax\<close> is only reached with at least one channel (a block without channels has
  no non-zero element), so the error branch of \<open>np_argmax\<close> inside the result is never taken.
\<close>

definition OpMaxChannelIndicatorOperator_execute ::
  "('a::{linorder,zero}) slot \<Rightarrow> roi \<Rightarrow> (8 word) block \<Rightarrow> roi list \<times> (error + (8 word) block)" where
  "OpMaxChannelIndicatorOperator_execute input r result =
     (let slices = roiToSlice (fst r) (snd r) in
      if slices = [] then ([], Inl ValueError)
      else
        let key = butlast slices; c = last slices;
            n_channels_requested = snd c - fst c
        in if n_channels_requested \<noteq> 1 then ([], Inl InvalidRoiException)
           else case shape (slot_meta input) of
             None \<Rightarrow> ([], Inl TypeError)
           | Some sh \<Rightarrow>
               if sh = [] then ([], Inl IndexError)
               else
                 let full_key = key @ [(0, last sh)];
                     fetched = sliceToRoi full_key;
                     data_shape = map (\<lambda>(a, b). b - a) full_key
                 in case request input fetched of
                      Inl e \<Rightarrow> ([fetched], Inl e)
                    | Inr data \<Rightarrow>
                        if \<not> np_any data_shape data then ([fetched], Inr (\<lambda>i. 0))
                        else if last sh \<le> 0 then ([fetched], Inl ValueError)
                        else ([fetched],
                              Inr (\<lambda>i. case np_argmax (map (\<lambda>k. data (butlast i @ [k])) [0..last sh - 1]) of
                                          Inl e \<Rightarrow> 0
                                        | Inr m \<Rightarrow> if int m = fst c then 1 else 0)))"

section \<open>OpMultiChannelSelector.execute\<close>

text \<open>
  The loop over \<open>enumerate(channel_indexes)\<close>: \<open>input_roi\<close> is updated in place at its last
  position, and the block for one source channel is written into the slab \<open>[i, i + 1)\<close> of
  the last axis of the result. The requests of the pool write to disjoint slabs; they are
  run here in the order in which they are added, and the first exception ends the call.
\<close>

fun select_channels :: "'a slot \<Rightarrow> roi \<Rightarrow> nat \<Rightarrow> int list \<Rightarrow> 'a block \<Rightarrow> error + 'a block" where
  "select_channels input input_roi i [] result = Inr result"
| "select_channels input input_roi i (channel # rest) result =
     (let input_roi' = (set_last (fst input_roi) channel, set_last (snd input_roi) (channel + 1));
          dest_axis = length (butlast (fst input_roi'))
      in case request input input_roi' of
           Inl e \<Rightarrow> Inl e
         | Inr fetched \<Rightarrow>
             select_channels input input_roi' (Suc i) rest
               (write_slab dest_axis (int i) (int i + 1) fetched result))"

text \<open>
  \<open>OpMultiChannelSelector.execute\<close>: a single selected channel is fetched straight into the
  result; otherwise one request per output channel. Assigning to \<open>input_roi.start[-1]\<close> is
  an IndexError on a ROI without axes.
\<close>

definition OpMultiChannelSelector_execute ::
  "'a slot \<Rightarrow> int list \<Rightarrow> roi \<Rightarrow> 'a block \<Rightarrow> error + 'a block" where
  "OpMultiChannelSelector_execute input channel_indexes r result =
     (let input_roi = r in
      if channel_indexes \<noteq> [] \<and> (fst input_roi = [] \<or> snd input_roi = []) then Inl IndexError
      else if length channel_indexes = 1 then
        (let channel_index = hd channel_indexes;
             input_roi' = (set_last (fst input_roi) channel_index, set_last (snd input_roi) (channel_index + 1))
         in request input input_roi')
      else select_channels input input_roi 0 channel_indexes result)"

section \<open>OpMultiArrayMerger\<close>

text \<open>
  The loop that collects the value ranges of the inputs: the first input without a range
  empties the list and leaves the loop.
\<close>

fun collect_dranges :: "meta list \<Rightarrow> int list list \<Rightarrow> int list list" where
  "collect_dranges [] dranges = dranges"
| "collect_dranges (m # ms) dranges =
     (case drange m of Some dr \<Rightarrow> collect_dranges ms (dranges @ [dr]) | None \<Rightarrow> [])"

text \<open>
  \<open>OpMultiArrayMerger.setupOutputs\<close>: the arguments are the metadata of the inputs, the
  value of MergingFunction and the current metadata of Output.
\<close>

definition OpMultiArrayMerger_setupOutputs ::
  "meta list \<Rightarrow> (int list list \<Rightarrow> int list) \<Rightarrow> meta \<Rightarrow> error + meta" where
  "OpMultiArrayMerger_setupOutputs inputs merging_function output_meta =
     (case inputs of
        [] \<Rightarrow> Inl IndexError
      | first_meta # _ \<Rightarrow>
          let out1 = (assignFrom output_meta first_meta)\<lparr>dtype := dtype first_meta\<rparr> in
          if \<not> list_all (\<lambda>m. shape m = shape first_meta \<and> axistags m = axistags first_meta) inputs
          then Inl AssertionError
          else
            let dranges = collect_dranges inputs [] in
            if length dranges > 0 then Inr (out1\<lparr>drange := Some (merging_function dranges)\<rparr>)
            else Inr out1)"

section \<open>Dirty notifications\<close>

text \<open>The input slots an operator is notified about.\<close>

datatype slot_name = Input_slot | Images_slot | AxisFlag_slot | AxisIndex_slot | SliceIndexes_slot | Other_slot

text \<open>
  The argument of \<open>setDirty\<close>: \<open>slice(None)\<close> (the whole slot) or a ROI.
\<close>

datatype dirty = Everything | Region coord coord

text \<open>The box that a notification covers on a slot of the given shape.\<close>

definition dirty_box :: "int list \<Rightarrow> dirty \<Rightarrow> roi" where
  "dirty_box sh d = (case d of Everything \<Rightarrow> (map (\<lambda>_. 0) sh, sh) | Region a b \<Rightarrow> (a, b))"

text \<open>
  One box lies within another: it starts no earlier and stops no later on every axis, and
  both have the same number of axes.
\<close>

definition box_within :: "roi \<Rightarrow> roi \<Rightarrow> bool" where
  "box_within inner outer \<longleftrightarrow>
     list_all2 (\<le>) (fst outer) (fst inner) \<and> list_all2 (\<le>) (snd inner) (snd outer)"

section \<open>OpMultiArraySlicer2\<close>

text \<open>
  The operator: its input slots (an optional slot that is not ready is \<open>None\<close>) and the
  metadata of the sub-slots of the level-1 output \<open>Slices\<close>.
\<close>

record 'a OpMultiArraySlicer2 =
  slicer_Input :: "'a slot"
  slicer_AxisFlag :: string
  slicer_SliceIndexes :: "int list option"
  slicer_Slices :: "meta list"

definition getSliceIndexes :: "'a OpMultiArraySlicer2 \<Rightarrow> error + int list" where
  "getSliceIndexes op =
     (case slicer_SliceIndexes op of
        Some v \<Rightarrow> Inr v
      | None \<Rightarrow>
          let flag = slicer_AxisFlag op;
              axistags = axistags (slot_meta (slicer_Input op));
              indexAxis = index_of flag axistags
          in case shape (slot_meta (slicer_Input op)) of
               None \<Rightarrow> Inl TypeError
             | Some inshape \<Rightarrow>
                 if indexAxis < length inshape then Inr [0..inshape ! indexAxis - 1]
                 else Inl IndexError)"

text \<open>
  \<open>OpMultiArraySlicer2.setupOutputs\<close>: \<open>Slices\<close> is resized to the number of slice indexes
  (sub-slots are dropped from, or fresh ones added at, the end) and every sub-slot gets the
  input's metadata with extent 1 on the sliced axis.
\<close>

definition OpMultiArraySlicer2_setupOutputs :: "'a OpMultiArraySlicer2 \<Rightarrow> error + 'a OpMultiArraySlicer2" where
  "OpMultiArraySlicer2_setupOutputs op =
     (let flag = slicer_AxisFlag op;
          input_meta = slot_meta (slicer_Input op);
          indexAxis = index_of flag (axistags input_meta)
      in case shape input_meta of
           None \<Rightarrow> Inl TypeError
         | Some inshape \<Rightarrow>
             if \<not> indexAxis < length inshape then Inl IndexError
             else
               let outshape = insert_at indexAxis 1 (pop_at indexAxis inshape);
                   outaxistags = axistags input_meta
               in case getSliceIndexes op of
                    Inl e \<Rightarrow> Inl e
                  | Inr sliceIndexes \<Rightarrow>
                      let oslot_meta = (\<lambda>old.
                            let m = (assignFrom old input_meta)\<lparr>axistags := outaxistags, shape := Some outshape\<rparr>
                            in if drange input_meta \<noteq> None then m\<lparr>drange := drange input_meta\<rparr> else m)
                      in Inr (op\<lparr>slicer_Slices :=
                                 map oslot_meta (take (length sliceIndexes)
                                   (slicer_Slices op @ replicate (length sliceIndexes) unset_meta))\<rparr>))"

text \<open>
  \<open>OpMultiArraySlicer2.execute\<close> for the sub-slot \<open>index\<close> (\<open>subindex[0]\<close>): the sliced axis
  of the requested ROI is replaced by \<open>[sliceIndex, sliceIndex + 1)\<close> and the block of Input
  for that ROI is written into the result, which is returned.
\<close>

definition OpMultiArraySlicer2_execute :: "'a OpMultiArraySlicer2 \<Rightarrow> nat \<Rightarrow> roi \<Rightarrow> error + 'a block" where
  "OpMultiArraySlicer2_execute op index rroi =
     (let key = roiToSlice (fst rroi) (snd rroi) in
      case getSliceIndexes op of
        Inl e \<Rightarrow> Inl e
      | Inr sliceIndexes \<Rightarrow>
          if \<not> index < length sliceIndexes then Inl IndexError
          else if \<not> index < length (slicer_Slices op) then Inl IndexError
          else
            let sliceIndex = sliceIndexes ! index;
                start = fst (sliceToRoi key);
                stop = snd (sliceToRoi key);
                flag = slicer_AxisFlag op;
                indexAxis = index_of flag (axistags (slot_meta (slicer_Input op)))
            in if \<not> indexAxis < length start then Inl IndexError
               else
                 let start' = insert_at indexAxis sliceIndex (pop_at indexAxis start);
                     stop' = insert_at indexAxis (sliceIndex + 1) (pop_at indexAxis stop);
                     newKey = roiToSlice start' stop'
                 in request (slicer_Input op) (sliceToRoi newKey))"

text \<open>
  The loop of \<open>propagateDirty\<close> over \<open>range(*dirty_slice_indexes)\<close>. \<open>Slices[i]\<close> with a
  negative \<open>i\<close> counts from the end and is an IndexError below \<open>-len(Slices)\<close>. The copy of
  the ROI gets \<open>[0, 1)\<close> on the sliced axis.
\<close>

fun mark_slices :: "int list \<Rightarrow> nat \<Rightarrow> nat \<Rightarrow> roi \<Rightarrow> int list \<Rightarrow> error + (nat \<times> dirty) list" where
  "mark_slices all_output_slices_indexes n_slices sliced_axis r [] = Inr []"
| "mark_slices all_output_slices_indexes n_slices sliced_axis r (i # rest) =
     (if i \<in> set all_output_slices_indexes \<and> i < int n_slices then
        if i < - int n_slices then Inl IndexError
        else
          let slot = (if i < 0 then nat (int n_slices + i) else nat i);
              sliceRoi = Region ((fst r)[sliced_axis := 0]) ((snd r)[sliced_axis := 1])
          in case mark_slices all_output_slices_indexes n_slices sliced_axis r rest of
               Inl e \<Rightarrow> Inl e
             | Inr marked \<Rightarrow> Inr ((slot, sliceRoi) # marked)
      else mark_slices all_output_slices_indexes n_slices sliced_axis r rest)"

text \<open>
  \<open>OpMultiArraySlicer2.propagateDirty\<close>: the result lists the calls of \<open>setDirty\<close>, each
  with the position of the sub-slot of \<open>Slices\<close> it is made on.
\<close>

definition OpMultiArraySlicer2_propagateDirty ::
  "'a OpMultiArraySlicer2 \<Rightarrow> slot_name \<Rightarrow> roi \<Rightarrow> error + (nat \<times> dirty) list" where
  "OpMultiArraySlicer2_propagateDirty op inputSlot r =
     (if inputSlot = AxisFlag_slot \<or> inputSlot = SliceIndexes_slot then
        Inr (map (\<lambda>i. (i, Everything)) [0..<length (slicer_Slices op)])
      else if inputSlot = Input_slot then
        (let sliced_axis = index_of (slicer_AxisFlag op) (axistags (slot_meta (slicer_Input op)));
             pairs = zip (fst r) (snd r)
         in if \<not> sliced_axis < length pairs then Inl IndexError
            else
              let dirty_slice_indexes = pairs ! sliced_axis in
              case getSliceIndexes op of
                Inl e \<Rightarrow> Inl e
              | Inr all_output_slices_indexes \<Rightarrow>
                  mark_slices all_output_slices_indexes (length (slicer_Slices op)) sliced_axis r
                    [fst dirty_slice_indexes..snd dirty_slice_indexes - 1])
      else Inl AssertionError)"

text \<open>
  Modelled from the spec: connecting an input slot to the sub-slot \<open>Slices[index]\<close> (the
  port contract, \<open>connect(upstream)\<close>). The connected slot has the metadata of the sub-slot
  and its requests are served by \<open>execute\<close> of the slicer.
\<close>

definition connect_Slices :: "'a OpMultiArraySlicer2 \<Rightarrow> nat \<Rightarrow> 'a slot" where
  "connect_Slices op index =
     \<lparr>slot_meta = slicer_Slices op ! index, has_upstream = True,
      request = OpMultiArraySlicer2_execute op index\<rparr>"

section \<open>OpMultiArrayStacker\<close>

text \<open>
  The operator: its input slots (\<open>AxisIndex\<close> is optional), the interval table written by
  \<open>setRightShape\<close>, and the metadata and readiness of Output.
\<close>

record 'a OpMultiArrayStacker =
  stacker_Images :: "'a slot list"
  stacker_AxisFlag :: string
  stacker_AxisIndex :: "nat option"
  stacker_intervals :: "(int \<times> int) list"
  stacker_Output :: meta
  stacker_Output_ready :: bool

text \<open>
  The local variables of \<open>setRightShape\<close> while it loops over the images; \<open>axisindex\<close> is
  unbound (\<open>None\<close>) until a connected image without the axis has been seen.
\<close>

record setRightShape_vars =
  v_c :: int
  v_intervals :: "(int \<times> int) list"
  v_inTagKeys :: "string list"
  v_axisindex :: "nat option"
  v_Output :: meta

fun setRightShape_loop ::
  "string \<Rightarrow> nat option \<Rightarrow> 'a slot list \<Rightarrow> setRightShape_vars \<Rightarrow> error + setRightShape_vars" where
  "setRightShape_loop flag AxisIndex [] v = Inr v"
| "setRightShape_loop flag AxisIndex (inSlot # rest) v =
     (let inTagKeys = axistags (slot_meta inSlot) in
      if has_upstream inSlot then
        (let out1 = assignFrom (v_Output v) (slot_meta inSlot);
             outTagKeys = axistags out1;
             new_axisindex = (case AxisIndex of Some a \<Rightarrow> a | None \<Rightarrow> length outTagKeys);
             axisindex = (if flag \<notin> set outTagKeys then Some new_axisindex else v_axisindex v);
             out2 = (if flag \<notin> set outTagKeys
                     then out1\<lparr>axistags := insert_at new_axisindex flag outTagKeys\<rparr>
                     else out1);
             old_c = v_c v
         in if flag \<in> set inTagKeys then
              (case shape (slot_meta inSlot) of
                 None \<Rightarrow> Inl TypeError
               | Some sh \<Rightarrow>
                   if \<not> index_of flag inTagKeys < length sh then Inl IndexError
                   else
                     let c = old_c + sh ! index_of flag inTagKeys in
                     setRightShape_loop flag AxisIndex rest
                       \<lparr>v_c = c, v_intervals = v_intervals v @ [(old_c, c)], v_inTagKeys = inTagKeys,
                        v_axisindex = axisindex, v_Output = out2\<rparr>)
            else
              (let c = old_c + 1 in
               setRightShape_loop flag AxisIndex rest
                 \<lparr>v_c = c, v_intervals = v_intervals v @ [(old_c, c)], v_inTagKeys = inTagKeys,
                  v_axisindex = axisindex, v_Output = out2\<rparr>))
      else setRightShape_loop flag AxisIndex rest (v\<lparr>v_inTagKeys := inTagKeys\<rparr>))"

text \<open>
  \<open>OpMultiArrayStacker.setRightShape\<close> (all of \<open>setupOutputs\<close>): the interval table is
  rebuilt, and the shape of Output is the shape of the first image with the stacking axis
  set to, or inserted with, the total extent. When no connected image has set the axis tags
  of Output and none were set before, \<open>Output.meta.axistags.index\<close> is an AttributeError
  (a connected image always leaves axis tags that contain the flag).
\<close>

definition setRightShape :: "'a OpMultiArrayStacker \<Rightarrow> error + 'a OpMultiArrayStacker" where
  "setRightShape op =
     (let flag = stacker_AxisFlag op in
      case setRightShape_loop flag (stacker_AxisIndex op) (stacker_Images op)
             \<lparr>v_c = 0, v_intervals = [], v_inTagKeys = [], v_axisindex = None, v_Output = stacker_Output op\<rparr> of
        Inl e \<Rightarrow> Inl e
      | Inr v \<Rightarrow>
          let op1 = op\<lparr>stacker_intervals := v_intervals v\<rparr>; c = v_c v in
          if length (stacker_Images op) > 0 then
            (case shape (slot_meta (hd (stacker_Images op))) of
               None \<Rightarrow> Inl TypeError
             | Some newshape \<Rightarrow>
                 if flag \<in> set (v_inTagKeys v) then
                   (if axistags (v_Output v) = [] then Inl AttributeError
                    else
                      let axisindex = index_of flag (axistags (v_Output v)) in
                      if \<not> axisindex < length newshape then Inl IndexError
                      else Inr (op1\<lparr>stacker_Output :=
                                  (v_Output v)\<lparr>shape := Some (newshape[axisindex := c])\<rparr>\<rparr>))
                 else
                   (case v_axisindex v of
                      None \<Rightarrow> Inl UnboundLocalError
                    | Some axisindex \<Rightarrow>
                        let out1 = (case ideal_blockshape (v_Output v) of
                                      None \<Rightarrow> v_Output v
                                    | Some ideal \<Rightarrow> (v_Output v)\<lparr>ideal_blockshape := Some (insert_at axisindex 1 ideal)\<rparr>);
                            out2 = (case max_blockshape out1 of
                                      None \<Rightarrow> out1
                                    | Some mb \<Rightarrow> out1\<lparr>max_blockshape := Some (insert_at axisindex 1 mb)\<rparr>)
                        in Inr (op1\<lparr>stacker_Output := out2\<lparr>shape := Some (insert_at axisindex c newshape)\<rparr>\<rparr>)))
          else Inr (op1\<lparr>stacker_Output := (v_Output v)\<lparr>shape := None\<rparr>\<rparr>))"

text \<open>
  The loop of \<open>execute\<close> over the images, with the local variables \<open>cnt\<close>, \<open>written\<close> and the
  result buffer. \<open>s\<close> and \<open>e\<close> are \<open>start[axisindex]\<close> and \<open>stop[axisindex]\<close>. The requests of
  the pool write to disjoint parts of the result; they are run here in the order in which
  they are added, and the first exception ends the call.
\<close>

fun stack_images ::
  "string \<Rightarrow> nat \<Rightarrow> key \<Rightarrow> int \<Rightarrow> int \<Rightarrow> 'a slot list \<Rightarrow> int \<Rightarrow> int \<Rightarrow> 'a block \<Rightarrow> error + 'a block" where
  "stack_images flag axisindex oldkey s e [] cnt written result = Inr result"
| "stack_images flag axisindex oldkey s e (inSlot # rest) cnt written result =
     (let inTagKeys = axistags (slot_meta inSlot) in
      if flag \<in> set inTagKeys then
        (case shape (slot_meta inSlot) of
           None \<Rightarrow> Inl TypeError
         | Some sh \<Rightarrow>
             if \<not> axisindex < length sh then Inl IndexError
             else
               let slices = sh ! axisindex in
               if cnt + slices \<ge> s \<and> s - cnt < slices \<and> s + written < e then
                 (let begin = (if cnt < s then s - cnt else 0);
                      end = (if cnt + slices > e then slices - (cnt + slices - e) else slices);
                      key' = insert_at axisindex (begin, end) oldkey
                  in case request inSlot (sliceToRoi key') of
                       Inl err \<Rightarrow> Inl err
                     | Inr fetched \<Rightarrow>
                         stack_images flag axisindex oldkey s e rest (cnt + slices) (written + end - begin)
                           (write_slab axisindex written (written + end - begin) fetched result))
               else stack_images flag axisindex oldkey s e rest (cnt + slices) written result)
      else
        if cnt \<ge> s \<and> s + written < e then
          (case request inSlot (sliceToRoi oldkey) of
             Inl err \<Rightarrow> Inl err
           | Inr fetched \<Rightarrow>
               stack_images flag axisindex oldkey s e rest (cnt + 1) (written + 1)
                 (write_plane axisindex written fetched result))
        else stack_images flag axisindex oldkey s e rest (cnt + 1) written result)"

text \<open>
  \<open>OpMultiArrayStacker.execute\<close>: the assertion that the ROI ends inside the output, the
  position of the stacking axis in the output, the key without that axis, and the loop.
\<close>

definition OpMultiArrayStacker_execute :: "'a OpMultiArrayStacker \<Rightarrow> roi \<Rightarrow> 'a block \<Rightarrow> error + 'a block" where
  "OpMultiArrayStacker_execute op rroi result =
     (let key = roiToSlice (fst rroi) (snd rroi);
          start = fst (sliceToRoi key);
          stop = snd (sliceToRoi key)
      in case shape (stacker_Output op) of
           None \<Rightarrow> Inl TypeError
         | Some outshape \<Rightarrow>
             if \<not> list_all (\<lambda>(a, b). a \<le> b) (zip stop outshape) then Inl AssertionError
             else
               let flag = stacker_AxisFlag op;
                   axisindex = index_of flag (axistags (stacker_Output op))
               in if \<not> axisindex < length key then Inl IndexError
                  else
                    let oldkey = pop_at axisindex key in
                    stack_images flag axisindex oldkey (start ! axisindex) (stop ! axisindex)
                      (stacker_Images op) 0 0 result)"

text \<open>
  Modelled from the spec: \<open>Operator.propagateDirtyIfNewModTime\<close> is not part of generic.py.
  In the words of section 4.3 of the spec, ``any upstream change, axis-flag change, or
  source-list change marks the entire output dirty''; the result lists the calls of
  \<open>setDirty\<close> on Output.
\<close>

definition propagateDirtyIfNewModTime :: "dirty list" where
  "propagateDirtyIfNewModTime = [Everything]"

text \<open>
  \<open>OpMultiArrayStacker.propagateDirty\<close>: the result lists the calls of \<open>setDirty\<close> on Output.
\<close>

definition OpMultiArrayStacker_propagateDirty ::
  "'a OpMultiArrayStacker \<Rightarrow> slot_name \<Rightarrow> nat list \<Rightarrow> roi \<Rightarrow> error + dirty list" where
  "OpMultiArrayStacker_propagateDirty op inputSlot subindex r =
     (if \<not> stacker_Output_ready op then Inr []
      else if inputSlot \<in> {AxisFlag_slot, AxisIndex_slot, Images_slot}
      then Inr propagateDirtyIfNewModTime
      else Inl AssertionError)"

section \<open>The interval table and the slabs of the result\<close>

text \<open>
  What an image adds to the extent of the stacking axis, as \<open>setRightShape\<close> counts it: its
  extent along the axis if it has the axis, else 1.
\<close>

definition contribution :: "string \<Rightarrow> 'a slot \<Rightarrow> int" where
  "contribution flag src =
     (let tags = axistags (slot_meta src) in
      if flag \<in> set tags
      then (case shape (slot_meta src) of Some sh \<Rightarrow> sh ! index_of flag tags | None \<Rightarrow> 0)
      else 1)"

text \<open>
  The cumulative sum of the contributions of the first \<open>j\<close> images.
\<close>

definition offset :: "string \<Rightarrow> 'a slot list \<Rightarrow> nat \<Rightarrow> int" where
  "offset flag srcs j = sum_list (map (contribution flag) (take j srcs))"

text \<open>
  The number of planes of the requested range \<open>[s, e)\<close> of the stacking axis that lie below
  position \<open>c\<close>: the value of \<open>written\<close> in \<open>execute\<close> when \<open>cnt\<close> is \<open>c\<close>.
\<close>

definition written_at :: "int \<Rightarrow> int \<Rightarrow> int \<Rightarrow> int" where
  "written_at s e c = max 0 (min c e - s)"

text \<open>
  The element of the result at \<open>idx\<close> is the one that the image at position \<open>c\<close> of the
  stacking axis delivers for its part of the requested range.
\<close>

definition slab_of ::
  "string \<Rightarrow> nat \<Rightarrow> key \<Rightarrow> int \<Rightarrow> int \<Rightarrow> 'a slot \<Rightarrow> int \<Rightarrow> 'a block \<Rightarrow> coord \<Rightarrow> bool" where
  "slab_of flag ax oldkey s e src c out idx =
     (if flag \<in> set (axistags (slot_meta src))
      then \<exists>blk. request src (sliceToRoi (insert_at ax (max 0 (s - c), min (contribution flag src) (e - c)) oldkey)) = Inr blk
              \<and> out idx = blk (idx[ax := idx ! ax - written_at s e c])
      else \<exists>blk. request src (sliceToRoi oldkey) = Inr blk \<and> out idx = blk (pop_at ax idx))"

text \<open>
  An image fits the stacker: if it has the stacking axis, it has it at the position \<open>ax\<close>
  and its shape reaches that far; its contribution is not negative; and it answers every
  request of the dimensionality that \<open>execute\<close> asks for.
\<close>

definition image_ok :: "string \<Rightarrow> nat \<Rightarrow> key \<Rightarrow> 'a slot \<Rightarrow> bool" where
  "image_ok flag ax oldkey src \<longleftrightarrow>
     (flag \<in> set (axistags (slot_meta src)) \<longrightarrow>
        index_of flag (axistags (slot_meta src)) = ax
        \<and> (\<exists>sh. shape (slot_meta src) = Some sh \<and> ax < length sh))
     \<and> 0 \<le> contribution flag src
     \<and> (\<forall>r. length (fst r) = (if flag \<in> set (axistags (slot_meta src)) then Suc (length oldkey) else length oldkey)
              \<and> length (snd r) = length (fst r)
            \<longrightarrow> (\<exists>blk. request src r = Inr blk))"

text \<open>
  Follows the spec's words (section 8, dirty propagation of the stacker): the dirty sub-box
  of image \<open>j\<close>, shifted by the recorded offset of that image along the stacking axis.
\<close>

definition claimed_stacker_dirty :: "'a OpMultiArrayStacker \<Rightarrow> nat \<Rightarrow> roi \<Rightarrow> dirty" where
  "claimed_stacker_dirty op j r =
     (let ax = index_of (stacker_AxisFlag op) (axistags (stacker_Output op));
          off = fst (stacker_intervals op ! j)
      in Region ((fst r)[ax := fst r ! ax + off]) ((snd r)[ax := snd r ! ax + off]))"

text \<open>
  The stacker of the round trip: its images are connected, in order, to all the sub-slots
  of \<open>Slices\<close> of a slicer, and it stacks along the axis that the slicer slices. The second
  argument is the metadata of Output before the stacker is configured.
\<close>

definition stack_slices :: "'a OpMultiArraySlicer2 \<Rightarrow> meta \<Rightarrow> 'a OpMultiArrayStacker" where
  "stack_slices slicer old_output =
     \<lparr>stacker_Images = map (connect_Slices slicer) [0..<length (slicer_Slices slicer)],
      stacker_AxisFlag = slicer_AxisFlag slicer, stacker_AxisIndex = None, stacker_intervals = [],
      stacker_Output = old_output, stacker_Output_ready = False\<rparr>"

section \<open>Example configurations\<close>

definition example_meta :: "int list \<Rightarrow> string list \<Rightarrow> meta" where
  "example_meta sh tags = \<lparr>shape = Some sh, axistags = tags, dtype = UInt8, drange = None,
     ideal_blockshape = None, max_blockshape = None, NOTREADY = False\<rparr>"

definition example_scores :: "int block" where
  "example_scores = (\<lambda>i. if i = [1, 2] then 5 else 0)"

definition zero_scores :: "int block" where
  "zero_scores = (\<lambda>i. 0)"

definition example_image :: "int block" where
  "example_image = (\<lambda>i. 10 * (i ! 0) + i ! 1)"

definition ex_a :: "int block" where
  "ex_a = (\<lambda>i. 100 + 10 * (i ! 0) + i ! 1)"

definition ex_b :: "int block" where
  "ex_b = (\<lambda>i. 200 + 10 * (i ! 0) + i ! 1)"

text \<open>Two images of shapes (2, 2) and (3, 2), stacked along \<open>x\<close>.\<close>

definition ex_stacker :: "int OpMultiArrayStacker" where
  "ex_stacker =
     \<lparr>stacker_Images = [array_slot (example_meta [2, 2] [''x'', ''y'']) ex_a,
                        array_slot (example_meta [3, 2] [''x'', ''y'']) ex_b],
      stacker_AxisFlag = ''x'', stacker_AxisIndex = None, stacker_intervals = [],
      stacker_Output = unset_meta, stacker_Output_ready = False\<rparr>"

definition ex_stacker_configured :: "int OpMultiArrayStacker" where
  "ex_stacker_configured = ex_stacker
     \<lparr>stacker_intervals := [(0, 2), (2, 5)], stacker_Output := example_meta [5, 2] [''x'', ''y'']\<rparr>"

text \<open>A slicer of an (8, 3) input along \<open>x\<close> that exposes the slices 2, 4 and 6.\<close>

definition ex_slicer :: "int OpMultiArraySlicer2" where
  "ex_slicer =
     \<lparr>slicer_Input = array_slot (example_meta [8, 3] [''x'', ''c'']) ex_a, slicer_AxisFlag = ''x'',
      slicer_SliceIndexes = Some [2, 4, 6], slicer_Slices = []\<rparr>"

text \<open>The configured stacker with a ready output, and the configured slicer.\<close>

definition ex_stacker_ready :: "int OpMultiArrayStacker" where
  "ex_stacker_ready = ex_stacker_configured\<lparr>stacker_Output_ready := True\<rparr>"

definition ex_slicer_configured :: "int OpMultiArraySlicer2" where
  "ex_slicer_configured = ex_slicer\<lparr>slicer_Slices := replicate 3 (example_meta [1, 3] [''x'', ''c''])\<rparr>"

section \<open>Theorems\<close>

subsection \<open>OpSubRegion.setupOutputs\<close>

text \<open>
  C5. Whenever the Roi has \<open>start \<ge> stop\<close> on some axis (equality included), or its
  dimensionality differs from that of the input shape (or start and stop differ in length),
  \<open>setupOutputs\<close> leaves Output marked not ready and assigns no shape: the result is the old
  output metadata with the not-ready flag set. In every other case the output metadata is
  the input's with the shape \<open>stop - start\<close>, componentwise.
\<close>

theorem C5_subregion_setupOutputs:
  assumes "shape input_meta = Some sh"
  shows "(length start \<noteq> length stop \<or> length start \<noteq> length sh
            \<or> (\<exists>i < length start. start ! i \<ge> stop ! i)
          \<longrightarrow> OpSubRegion_setupOutputs (start, stop) input_meta output_meta
                = Inr (output_meta\<lparr>NOTREADY := True\<rparr>))
       \<and> (length start = length stop \<and> length start = length sh
            \<and> (\<forall>i < length start. start ! i < stop ! i)
          \<longrightarrow> (\<exists>m. OpSubRegion_setupOutputs (start, stop) input_meta output_meta = Inr m
                 \<and> m = input_meta\<lparr>shape := Some (map (\<lambda>i. stop ! i - start ! i) [0..<length start])\<rparr>
                 \<and> NOTREADY m = NOTREADY input_meta))"
proof -
  have any_iff: "list_ex (\<lambda>(a, b). a \<ge> b) (zip start stop) \<longleftrightarrow> (\<exists>i < length start. start ! i \<ge> stop ! i)"
    if "length start = length stop"
    using that by (auto simp: list_ex_iff set_zip)
  have diff_eq: "map2 (\<lambda>a b. b - a) start stop = map (\<lambda>i. stop ! i - start ! i) [0..<length start]"
    if "length start = length stop"
    using that by (intro nth_equalityI) auto
  show ?thesis
    using assms any_iff diff_eq
    by (auto simp: OpSubRegion_setupOutputs_def assignFrom_def Let_def not_le)
qed

theorem C5_subregion_setupOutputs_witness:
  "OpSubRegion_setupOutputs ([5, 5], [5, 9]) (example_meta [100, 100] [''x'', ''y'']) unset_meta
     = Inr (unset_meta\<lparr>NOTREADY := True\<rparr>)
   \<and> OpSubRegion_setupOutputs ([10, 20], [20, 30]) (example_meta [100, 100] [''x'', ''y'']) unset_meta
     = Inr (example_meta [10, 10] [''x'', ''y''])"
proof -
  have sh: "shape (example_meta [100, 100] [''x'', ''y'']) = Some [100, 100]"
    by (simp add: example_meta_def)
  have a: "\<exists>i < length [5, 5::int]. [5, 5::int] ! i \<ge> [5, 9] ! i"
    by (rule exI [of _ 0]) simp
  have b: "\<forall>i < length [10, 20::int]. [10, 20::int] ! i < [20, 30] ! i"
    by (simp add: less_Suc_eq all_conj_distrib nth_Cons')
  have m: "map (\<lambda>i. [20, 30::int] ! i - [10, 20] ! i) [0..<length [10, 20::int]] = [10, 10]"
    by (simp add: upt_rec)
  from C5_subregion_setupOutputs [OF sh, of "[5, 5]" "[5, 9]" unset_meta] a
  have 1: "OpSubRegion_setupOutputs ([5, 5], [5, 9]) (example_meta [100, 100] [''x'', ''y'']) unset_meta
     = Inr (unset_meta\<lparr>NOTREADY := True\<rparr>)" by blast
  from C5_subregion_setupOutputs [OF sh, of "[10, 20]" "[20, 30]" unset_meta] b
  have "\<exists>m. OpSubRegion_setupOutputs ([10, 20], [20, 30]) (example_meta [100, 100] [''x'', ''y'']) unset_meta = Inr m
          \<and> m = (example_meta [100, 100] [''x'', ''y''])\<lparr>shape := Some (map (\<lambda>i. [20, 30::int] ! i - [10, 20] ! i) [0..<length [10, 20::int]])\<rparr>"
    by simp
  then have 2: "OpSubRegion_setupOutputs ([10, 20], [20, 30]) (example_meta [100, 100] [''x'', ''y'']) unset_meta
     = Inr (example_meta [10, 10] [''x'', ''y''])"
    unfolding m by (auto simp: example_meta_def)
  from 1 2 show ?thesis by simp
qed

subsection \<open>OpMultiChannelSelector.setupOutputs\<close>

lemma tagged_shape_last:
  assumes "ks \<noteq> []" "last ks = k" "length vs = length ks"
  shows "map_of (rev (zip ks vs)) k = Some (last vs)"
proof -
  obtain ks' where ks: "ks = ks' @ [k]" using assms(1,2) by (metis append_butlast_last_id)
  have "vs \<noteq> []" using assms by auto
  then obtain vs' v where vs: "vs = vs' @ [v]" by (metis append_butlast_last_id)
  have "length vs' = length ks'" using assms(3) ks vs by simp
  then show ?thesis by (simp add: ks vs)
qed

text \<open>
  C10. With the channel axis last, \<open>setupOutputs\<close> marks Output not ready when the
  selection is empty as well as when some selected channel is at least the input's channel
  count; and whatever the input metadata, an empty selection never gives a ready output
  (the call either raises or returns metadata flagged not ready).
\<close>

theorem C10_selector_setupOutputs:
  "(axistags input_meta \<noteq> [] \<and> last (axistags input_meta) = ''c''
      \<and> shape input_meta = Some sh \<and> length sh = length (axistags input_meta)
      \<and> (selected = [] \<or> (\<exists>x \<in> set selected. x \<ge> last sh))
    \<longrightarrow> OpMultiChannelSelector_setupOutputs selected input_meta output_meta
          = Inr (output_meta\<lparr>NOTREADY := True\<rparr>))
   \<and> (\<forall>m. OpMultiChannelSelector_setupOutputs [] input_meta output_meta = Inr m \<longrightarrow> NOTREADY m)"
proof (intro conjI impI allI)
  assume a: "axistags input_meta \<noteq> [] \<and> last (axistags input_meta) = ''c''
      \<and> shape input_meta = Some sh \<and> length sh = length (axistags input_meta)
      \<and> (selected = [] \<or> (\<exists>x \<in> set selected. x \<ge> last sh))"
  then have c: "getTaggedShape input_meta ''c'' = Some (last sh)"
    by (simp add: getTaggedShape_def tagged_shape_last)
  from a have "length selected = 0 \<or> list_ex (\<lambda>x. x \<ge> last sh) selected"
    by (auto simp: list_ex_iff)
  with a c show "OpMultiChannelSelector_setupOutputs selected input_meta output_meta
          = Inr (output_meta\<lparr>NOTREADY := True\<rparr>)"
    by (simp add: OpMultiChannelSelector_setupOutputs_def py_last_def getAxisKeys_def)
next
  fix m
  assume "OpMultiChannelSelector_setupOutputs [] input_meta output_meta = Inr m"
  then show "NOTREADY m"
    by (auto simp: OpMultiChannelSelector_setupOutputs_def split: sum.splits if_splits option.splits)
qed

theorem C10_selector_setupOutputs_witness:
  "OpMultiChannelSelector_setupOutputs [] (example_meta [5, 4] [''x'', ''c'']) unset_meta
     = Inr (unset_meta\<lparr>NOTREADY := True\<rparr>)
   \<and> NOTREADY (unset_meta\<lparr>NOTREADY := True\<rparr>)
   \<and> OpMultiChannelSelector_setupOutputs [0, 4] (example_meta [5, 4] [''x'', ''c'']) unset_meta
     = Inr (unset_meta\<lparr>NOTREADY := True\<rparr>)"
proof -
  have 1: "OpMultiChannelSelector_setupOutputs [] (example_meta [5, 4] [''x'', ''c'']) unset_meta
     = Inr (unset_meta\<lparr>NOTREADY := True\<rparr>)"
    using C10_selector_setupOutputs [of "example_meta [5, 4] [''x'', ''c'']" "[5, 4]" "[]" unset_meta]
    by (simp add: example_meta_def)
  have 2: "NOTREADY (unset_meta\<lparr>NOTREADY := True\<rparr>)"
    using C10_selector_setupOutputs [of "example_meta [5, 4] [''x'', ''c'']" "[5, 4]" "[]" unset_meta] 1
    by blast
  have 3: "OpMultiChannelSelector_setupOutputs [0, 4] (example_meta [5, 4] [''x'', ''c'']) unset_meta
     = Inr (unset_meta\<lparr>NOTREADY := True\<rparr>)"
    using C10_selector_setupOutputs [of "example_meta [5, 4] [''x'', ''c'']" "[5, 4]" "[0, 4]" unset_meta]
    by (simp add: example_meta_def)
  from 1 2 3 show ?thesis by simp
qed

subsection \<open>OpMaxChannelIndicatorOperator.execute\<close>

lemma indices_last_nonpos: "n \<le> 0 \<Longrightarrow> indices (xs @ [n]) = []"
  by (induction xs) auto

lemma np_any_last_pos: "np_any (xs @ [n]) data \<Longrightarrow> 0 < n"
  using indices_last_nonpos [of n xs] by (cases "0 < n") (auto simp: np_any_def)

lemma roiToSlice_last:
  "start \<noteq> [] \<Longrightarrow> length start = length stop \<Longrightarrow> last (roiToSlice start stop) = (last start, last stop)"
  by (cases "stop = []") (auto simp: roiToSlice_def last_conv_nth)

lemma roiToSlice_butlast:
  "length start = length stop \<Longrightarrow> butlast (roiToSlice start stop) = zip (butlast start) (butlast stop)"
  by (simp add: roiToSlice_def butlast_conv_take take_zip)

lemma roiToSlice_Nil: "length start = length stop \<Longrightarrow> roiToSlice start stop = [] \<longleftrightarrow> start = []"
  by (cases start; cases stop) (auto simp: roiToSlice_def)

lemma sliceToRoi_full:
  "length a = length b \<Longrightarrow> sliceToRoi (zip a b @ [(x, y)]) = (a @ [x], b @ [y])"
  by (simp add: sliceToRoi_def)

text \<open>
  C6. For a ROI with at least one axis: when the extent along the last (channel) axis is
  not exactly 1, \<open>execute\<close> raises InvalidRoiException and nothing has been fetched from
  upstream. When the extent is exactly 1 (Input has a shape with at least one axis and
  answers the request), no exception is raised: the one block over all channels is fetched
  and a result is produced.
\<close>

theorem C6_max_channel_roi_check:
  assumes "start \<noteq> []" and "length start = length stop"
  shows "(last stop - last start \<noteq> 1 \<longrightarrow>
            OpMaxChannelIndicatorOperator_execute input (start, stop) result = ([], Inl InvalidRoiException))
       \<and> (last stop - last start = 1 \<and> shape (slot_meta input) = Some sh \<and> sh \<noteq> []
            \<and> request input (butlast start @ [0], butlast stop @ [last sh]) = Inr data \<longrightarrow>
            fst (OpMaxChannelIndicatorOperator_execute input (start, stop) result)
              = [(butlast start @ [0], butlast stop @ [last sh])]
            \<and> (\<exists>out. snd (OpMaxChannelIndicatorOperator_execute input (start, stop) result) = Inr out))"
proof (intro conjI impI)
  assume "last stop - last start \<noteq> 1"
  with assms show "OpMaxChannelIndicatorOperator_execute input (start, stop) result = ([], Inl InvalidRoiException)"
    by (simp add: OpMaxChannelIndicatorOperator_execute_def Let_def roiToSlice_last roiToSlice_Nil)
next
  assume a: "last stop - last start = 1 \<and> shape (slot_meta input) = Some sh \<and> sh \<noteq> []
            \<and> request input (butlast start @ [0], butlast stop @ [last sh]) = Inr data"
  have len: "length (butlast start) = length (butlast stop)" using assms by simp
  show "fst (OpMaxChannelIndicatorOperator_execute input (start, stop) result)
              = [(butlast start @ [0], butlast stop @ [last sh])]"
    using assms a len
    by (simp add: OpMaxChannelIndicatorOperator_execute_def Let_def roiToSlice_last roiToSlice_Nil
        roiToSlice_butlast sliceToRoi_full)
  show "\<exists>out. snd (OpMaxChannelIndicatorOperator_execute input (start, stop) result) = Inr out"
    using assms a len np_any_last_pos [of "map2 (\<lambda>a b. b - a) (butlast start) (butlast stop)" "last sh"]
    by (auto simp: OpMaxChannelIndicatorOperator_execute_def Let_def roiToSlice_last roiToSlice_Nil
        roiToSlice_butlast sliceToRoi_full)
qed

theorem C6_max_channel_roi_check_witness:
  "OpMaxChannelIndicatorOperator_execute (array_slot (example_meta [2, 3] [''x'', ''c'']) example_scores)
      ([0, 0], [2, 3]) (\<lambda>i. 7) = ([], Inl InvalidRoiException)
   \<and> fst (OpMaxChannelIndicatorOperator_execute (array_slot (example_meta [2, 3] [''x'', ''c'']) example_scores)
      ([0, 2], [2, 3]) (\<lambda>i. 7)) = [([0, 0], [2, 3])]
   \<and> (\<exists>out. snd (OpMaxChannelIndicatorOperator_execute (array_slot (example_meta [2, 3] [''x'', ''c'']) example_scores)
      ([0, 2], [2, 3]) (\<lambda>i. 7)) = Inr out)"
proof -
  have 1: "OpMaxChannelIndicatorOperator_execute (array_slot (example_meta [2, 3] [''x'', ''c'']) example_scores)
      ([0, 0], [2, 3]) (\<lambda>i. 7) = ([], Inl InvalidRoiException)"
    using C6_max_channel_roi_check [of "[0, 0]" "[2, 3]"] by simp
  have 2: "fst (OpMaxChannelIndicatorOperator_execute (array_slot (example_meta [2, 3] [''x'', ''c'']) example_scores)
      ([0, 2], [2, 3]) (\<lambda>i. 7)) = [([0, 0], [2, 3])]
   \<and> (\<exists>out. snd (OpMaxChannelIndicatorOperator_execute (array_slot (example_meta [2, 3] [''x'', ''c'']) example_scores)
      ([0, 2], [2, 3]) (\<lambda>i. 7)) = Inr out)"
    using C6_max_channel_roi_check [where start = "[0, 2]" and stop = "[2, 3]" and sh = "[2, 3]"
        and input = "array_slot (example_meta [2, 3] [''x'', ''c'']) example_scores"
        and data = "\<lambda>i. example_scores (map2 (+) i [0, 0])"]
    by (simp add: array_slot_def example_meta_def)
  from 1 2 show ?thesis by simp
qed

lemma argmax_from_no_better: "\<forall>x \<in> set xs. x \<le> best \<Longrightarrow> argmax_from best best_k k xs = best_k"
  by (induction xs arbitrary: k) auto

lemma np_argmax_all_zero:
  assumes "0 < n"
  shows "np_argmax (map (\<lambda>k. 0::'a::{linorder,zero}) [0..n - 1]) = Inr 0"
proof -
  have "[0..n - 1] = 0 # [1..n - 1]" using assms by (simp add: upto_rec1)
  then show ?thesis by (simp add: np_argmax_def argmax_from_no_better)
qed

lemma np_any_False: "\<forall>i \<in> set (indices sh). data i = 0 \<Longrightarrow> \<not> np_any sh data"
  by (simp add: np_any_def list_ex_iff)

text \<open>
  C9. For a single-channel ROI whose fetched input block (all channels over the requested
  pixels) is entirely zero, the result is 0 everywhere, whichever channel was requested,
  channel 0 included; yet the argmax over an all-zero channel vector is position 0, so the
  argmax rule alone would have marked channel 0 with 1.
\<close>

theorem C9_max_channel_all_zero:
  assumes "start \<noteq> []" and "length start = length stop" and "last stop - last start = 1"
    and "shape (slot_meta input) = Some sh" and "sh \<noteq> []"
    and "request input (butlast start @ [0], butlast stop @ [last sh]) = Inr data"
    and "\<forall>i \<in> set (indices (map2 (\<lambda>a b. b - a) (butlast start @ [0]) (butlast stop @ [last sh]))). data i = 0"
  shows "snd (OpMaxChannelIndicatorOperator_execute input (start, stop) result) = Inr (\<lambda>i. 0)
       \<and> (0 < last sh \<longrightarrow> np_argmax (map (\<lambda>k. 0::'a::{linorder,zero}) [0..last sh - 1]) = Inr 0)"
proof -
  have len: "length (butlast start) = length (butlast stop)" using assms by simp
  have "\<not> np_any (map2 (\<lambda>a b. b - a) (butlast start) (butlast stop) @ [last sh]) data"
    using assms(7) len by (intro np_any_False) simp
  then have "snd (OpMaxChannelIndicatorOperator_execute input (start, stop) result) = Inr (\<lambda>i. 0)"
    using assms(1-6) len
    by (simp add: OpMaxChannelIndicatorOperator_execute_def Let_def roiToSlice_last roiToSlice_Nil
        roiToSlice_butlast sliceToRoi_full)
  then show ?thesis using np_argmax_all_zero by blast
qed

theorem C9_max_channel_all_zero_witness:
  "snd (OpMaxChannelIndicatorOperator_execute (array_slot (example_meta [2, 3] [''x'', ''c'']) zero_scores)
      ([0, 0], [2, 1]) (\<lambda>i. 7)) = Inr (\<lambda>i. 0)
   \<and> np_argmax (map (\<lambda>k. 0::int) [0..3 - 1]) = Inr 0"
proof -
  have r: "request (array_slot (example_meta [2, 3] [''x'', ''c'']) zero_scores)
             (butlast [0, 0] @ [0], butlast [2, 1] @ [last [2, 3]]) = Inr (\<lambda>i. 0)"
    by (simp add: array_slot_def zero_scores_def)
  have z: "\<forall>i \<in> set (indices (map2 (\<lambda>a b. b - a) (butlast [0, 0] @ [0]) (butlast [2, 1] @ [last [2, 3]]))).
           (\<lambda>i. 0::int) i = 0"
    by simp
  have sh: "shape (slot_meta (array_slot (example_meta [2, 3] [''x'', ''c'']) zero_scores)) = Some [2, 3]"
    by (simp add: array_slot_def example_meta_def)
  show ?thesis
    using C9_max_channel_all_zero [of "[0, 0]" "[2, 1]"
        "array_slot (example_meta [2, 3] [''x'', ''c'']) zero_scores" "[2, 3]", OF _ _ _ sh _ r z, of "\<lambda>i. 7"]
    by simp
qed

subsection \<open>OpMultiChannelSelector.execute\<close>

lemma set_last_length [simp]: "length (set_last xs v) = length xs"
  by (simp add: set_last_def)

lemma set_last_twice [simp]: "set_last (set_last xs v) w = set_last xs w"
  by (simp add: set_last_def)

lemma select_channels_at:
  "\<exists>out. select_channels (array_slot m data) (s, e) i0 chans result = Inr out
     \<and> (\<forall>idx. out idx =
          (if length s - 1 < length idx \<and> int i0 \<le> idx ! (length s - 1)
              \<and> idx ! (length s - 1) < int (i0 + length chans)
           then data (map2 (+) (idx[length s - 1 := 0])
                        (set_last s (chans ! (nat (idx ! (length s - 1)) - i0))))
           else result idx))"
proof (induction chans arbitrary: s e i0 result)
  case Nil
  show ?case by auto
next
  case (Cons c rest)
  let ?blk = "\<lambda>i. data (map2 (+) i (set_last s c))"
  let ?res = "write_slab (length s - 1) (int i0) (int i0 + 1) ?blk result"
  from Cons.IH [of "set_last s c" "set_last e (c + 1)" "Suc i0" ?res]
  obtain out where out: "select_channels (array_slot m data) (set_last s c, set_last e (c + 1)) (Suc i0) rest ?res = Inr out"
    and at: "\<And>idx. out idx =
          (if length s - 1 < length idx \<and> int (Suc i0) \<le> idx ! (length s - 1)
              \<and> idx ! (length s - 1) < int (Suc i0 + length rest)
           then data (map2 (+) (idx[length s - 1 := 0])
                        (set_last s (rest ! (nat (idx ! (length s - 1)) - Suc i0))))
           else ?res idx)"
    by auto
  have step: "select_channels (array_slot m data) (s, e) i0 (c # rest) result = Inr out"
    using out by (simp add: array_slot_def Let_def)
  have "out idx =
          (if length s - 1 < length idx \<and> int i0 \<le> idx ! (length s - 1)
              \<and> idx ! (length s - 1) < int (i0 + length (c # rest))
           then data (map2 (+) (idx[length s - 1 := 0])
                        (set_last s ((c # rest) ! (nat (idx ! (length s - 1)) - i0))))
           else result idx)" for idx
  proof (cases "length s - 1 < length idx \<and> idx ! (length s - 1) = int i0")
    case True
    then show ?thesis
      by (simp add: at write_slab_def)
  next
    case False
    then have "nat (idx ! (length s - 1)) - i0 = Suc (nat (idx ! (length s - 1)) - Suc i0)"
      if "int i0 \<le> idx ! (length s - 1)" "length s - 1 < length idx"
      using that by auto
    with False show ?thesis
      by (auto simp: at write_slab_def)
  qed
  with step show ?case by blast
qed

lemma map2_add_set_last:
  assumes "length idx = length start"
  shows "map2 (+) (idx[length start - 1 := 0]) (set_last start ch) = set_last (map2 (+) idx start) (ch::int)"
  using assms by (intro nth_equalityI) (auto simp: set_last_def nth_list_update)

lemma select_channels_hit:
  assumes "s \<noteq> []" "length ix = length s" "k < length sel" "last ix = int k"
  shows "\<exists>out. select_channels (array_slot m data) (s, e) 0 sel result = Inr out
           \<and> out ix = data (set_last (map2 (+) ix s) (sel ! k))"
proof -
  have ne: "ix \<noteq> []" using assms by auto
  have at: "ix ! (length s - 1) = int k"
    using assms ne by (simp add: last_conv_nth)
  have lt: "length s - 1 < length ix" using assms by (cases s) auto
  from select_channels_at [of m data s e 0 sel result]
  obtain out where out: "select_channels (array_slot m data) (s, e) 0 sel result = Inr out"
    and all: "\<forall>idx. out idx =
          (if length s - 1 < length idx \<and> int 0 \<le> idx ! (length s - 1)
              \<and> idx ! (length s - 1) < int (0 + length sel)
           then data (map2 (+) (idx[length s - 1 := 0])
                        (set_last s (sel ! (nat (idx ! (length s - 1)) - 0))))
           else result idx)"
    by blast
  have "out ix = data (map2 (+) (ix[length s - 1 := 0]) (set_last s (sel ! k)))"
    unfolding all [rule_format, of ix] at using lt assms(3) by simp
  then have "out ix = data (set_last (map2 (+) ix s) (sel ! k))"
    by (simp only: map2_add_set_last [OF assms(2)])
  with out show ?thesis by blast
qed

text \<open>
  C8. For a source backed by the array \<open>data\<close>, any selection and any ROI that covers the
  full channel range of the output (on the last axis it starts at 0 and stops at the number
  of selected channels; the other axes are free), the element of the result in output
  channel \<open>i\<close> is the source element at the same position (shifted by the start of the ROI)
  in channel \<open>SelectedChannels[i]\<close>. In particular, with the selection (2, 0, 0) and the full
  output ROI, output channel 0 is source channel 2 and output channels 1 and 2 are source
  channel 0.
\<close>

theorem C8_channel_selector_execute:
  "(start \<noteq> [] \<and> length stop = length start
      \<and> last start = 0 \<and> last stop = int (length selected)
      \<and> length idx = length start \<and> i < length selected \<and> last idx = int i
    \<longrightarrow> (\<exists>out. OpMultiChannelSelector_execute (array_slot m data) selected (start, stop) result = Inr out
           \<and> out idx = data (set_last (map2 (+) idx start) (selected ! i))))
   \<and> (\<forall>p. length p = length spatial
        \<longrightarrow> (\<exists>out. OpMultiChannelSelector_execute (array_slot m data) [2, 0, 0]
                      (replicate (length spatial) 0 @ [0], spatial @ [3]) result = Inr out
               \<and> out (p @ [0]) = data (p @ [2])
               \<and> out (p @ [1]) = data (p @ [0])
               \<and> out (p @ [2]) = data (p @ [0])))"
proof -
  have general: "\<exists>out. OpMultiChannelSelector_execute (array_slot m data) sel (s, e) result = Inr out
           \<and> out ix = data (set_last (map2 (+) ix s) (sel ! k))"
    if "s \<noteq> []" "length e = length s" "length ix = length s" "k < length sel" "last ix = int k"
    for s e ix sel k
  proof -
    have ne: "ix \<noteq> []" "e \<noteq> []" using that by auto
    have at: "ix ! (length s - 1) = int k"
      using that ne by (simp add: last_conv_nth)
    show ?thesis
    proof (cases "length sel = 1")
      case True
      then have k0: "k = 0" and hd: "hd sel = sel ! 0" using that(4) by (cases sel; auto)+
      have "ix[length s - 1 := 0] = ix" using at k0 that ne by (simp add: list_update_same_conv)
      then have "map2 (+) ix (set_last s (sel ! 0)) = set_last (map2 (+) ix s) (sel ! 0)"
        using map2_add_set_last [OF that(3), of "sel ! 0"] by simp
      with True that ne k0 hd show ?thesis
        by (simp add: OpMultiChannelSelector_execute_def array_slot_def)
    next
      case False
      from select_channels_hit [OF that(1,3,4,5), of m data e result]
      obtain out where "select_channels (array_slot m data) (s, e) 0 sel result = Inr out"
        and "out ix = data (set_last (map2 (+) ix s) (sel ! k))"
        by blast
      with False that ne show ?thesis
        by (simp add: OpMultiChannelSelector_execute_def)
    qed
  qed
  have scenario: "\<exists>out. OpMultiChannelSelector_execute (array_slot m data) [2, 0, 0]
                      (replicate (length spatial) 0 @ [0], spatial @ [3]) result = Inr out
               \<and> out (p @ [0]) = data (p @ [2])
               \<and> out (p @ [1]) = data (p @ [0])
               \<and> out (p @ [2]) = data (p @ [0])"
    if p: "length p = length spatial" for p
  proof -
    let ?s = "replicate (length spatial) 0 @ [0::int]"
    have add: "map2 (+) (p @ [c]) ?s = p @ [c]" for c
      using p by (simp add: map2_map_map [symmetric] zip_replicate2 map_idI del: replicate.simps)
    have g: "\<exists>out. OpMultiChannelSelector_execute (array_slot m data) [2, 0, 0] (?s, spatial @ [3]) result = Inr out
           \<and> out (p @ [int k]) = data (p @ [[2, 0, 0] ! k])" if "k < 3" for k
      using general [of ?s "spatial @ [3]" "p @ [int k]" k "[2, 0, 0]"] that p add [of "int k"]
      by (simp add: set_last_def list_update_append)
    from g [of 0] g [of 1] g [of 2] show ?thesis by auto
  qed
  from general scenario show ?thesis by blast
qed

theorem C8_channel_selector_execute_witness:
  "\<exists>out. OpMultiChannelSelector_execute (array_slot (example_meta [2, 4] [''x'', ''c'']) example_image)
            [2, 0, 0] ([0, 0], [2, 3]) (\<lambda>i. - 1) = Inr out
         \<and> out [1, 0] = 12 \<and> out [1, 1] = 10 \<and> out [1, 2] = 10 \<and> out [0, 0] = 2"
proof -
  have 1: "\<exists>out. OpMultiChannelSelector_execute (array_slot (example_meta [2, 4] [''x'', ''c'']) example_image)
            [2, 0, 0] ([0, 0], [2, 3]) (\<lambda>i. - 1) = Inr out \<and> out [0, 0] = 2"
    using C8_channel_selector_execute [where start = "[0, 0]" and stop = "[2, 3]" and idx = "[0, 0]"
        and i = 0 and selected = "[2, 0, 0]" and data = example_image
        and m = "example_meta [2, 4] [''x'', ''c'']" and result = "\<lambda>i. - 1"]
    by (simp add: set_last_def example_image_def)
  have 2: "\<exists>out. OpMultiChannelSelector_execute (array_slot (example_meta [2, 4] [''x'', ''c'']) example_image)
            [2, 0, 0] ([0, 0], [2, 3]) (\<lambda>i. - 1) = Inr out
         \<and> out [1, 0] = 12 \<and> out [1, 1] = 10 \<and> out [1, 2] = 10"
    using C8_channel_selector_execute [where spatial = "[2]" and data = example_image
        and m = "example_meta [2, 4] [''x'', ''c'']" and result = "\<lambda>i. - 1", THEN conjunct2, THEN spec, of "[1]"]
    by (simp add: example_image_def)
  from 1 2 show ?thesis by auto
qed

subsection \<open>OpMultiArrayMerger.setupOutputs\<close>

text \<open>
  C7. The code at an input the claim excludes: the first input has the value range
  (0, 255) and the second has none. The collected list is emptied, so the merging function
  is not applied, but the output keeps the range that \<open>assignFrom\<close> copied from the first
  input: a range is emitted although one input supplies none.
\<close>

theorem C7_merger_partial_drange:
  "OpMultiArrayMerger_setupOutputs
     [(example_meta [2, 2] [''x'', ''y''])\<lparr>drange := Some [0, 255]\<rparr>, example_meta [2, 2] [''x'', ''y'']]
     merging_function unset_meta
   = Inr ((example_meta [2, 2] [''x'', ''y''])\<lparr>drange := Some [0, 255]\<rparr>)"
  by (simp add: OpMultiArrayMerger_setupOutputs_def assignFrom_def example_meta_def)

subsection \<open>OpMultiArrayStacker.execute\<close>

lemma written_at_mono: "c \<le> c' \<Longrightarrow> written_at s e c \<le> written_at s e c'"
  by (auto simp: written_at_def max_def min_def)

lemma written_at_write:
  assumes "0 \<le> n" "cnt + n \<ge> s" "s - cnt < n" "s + written_at s e cnt < e"
  shows "written_at s e cnt + (if cnt + n > e then n - (cnt + n - e) else n) - (if cnt < s then s - cnt else 0)
           = written_at s e (cnt + n)"
  using assms by (auto simp: written_at_def max_def min_def split: if_splits)

lemma written_at_skip:
  assumes "0 \<le> n" "\<not> (cnt + n \<ge> s \<and> s - cnt < n \<and> s + written_at s e cnt < e)"
  shows "written_at s e (cnt + n) = written_at s e cnt"
  using assms by (auto simp: written_at_def max_def min_def split: if_splits)

lemma written_at_plane:
  assumes "cnt \<ge> s" "s + written_at s e cnt < e"
  shows "written_at s e cnt + 1 = written_at s e (cnt + 1)"
  using assms by (auto simp: written_at_def max_def min_def split: if_splits)

lemma written_at_no_plane:
  assumes "\<not> (cnt \<ge> s \<and> s + written_at s e cnt < e)"
  shows "written_at s e (cnt + 1) = written_at s e cnt"
  using assms by (auto simp: written_at_def max_def min_def split: if_splits)

lemma offset_0 [simp]: "offset flag srcs 0 = 0"
  by (simp add: offset_def)

lemma offset_Cons_Suc [simp]: "offset flag (src # rest) (Suc j) = contribution flag src + offset flag rest j"
  by (simp add: offset_def)

lemma offset_nonneg:
  "\<forall>src \<in> set srcs. 0 \<le> contribution flag src \<Longrightarrow> 0 \<le> offset flag srcs j"
  unfolding offset_def by (intro sum_list_nonneg) (auto dest: in_set_takeD)

lemma sliceToRoi_length [simp]: "length (fst (sliceToRoi k)) = length k" "length (snd (sliceToRoi k)) = length k"
  by (simp_all add: sliceToRoi_def)

lemma insert_at_length [simp]: "length (insert_at k v xs) = Suc (length xs)"
  by (simp add: insert_at_def)

lemma stack_images_step:
  assumes ok: "image_ok flag ax oldkey src"
  shows "\<exists>result1.
      stack_images flag ax oldkey s e (src # rest) cnt (written_at s e cnt) result
        = stack_images flag ax oldkey s e rest (cnt + contribution flag src)
            (written_at s e (cnt + contribution flag src)) result1
      \<and> (\<forall>idx. idx ! ax < written_at s e cnt \<or> written_at s e (cnt + contribution flag src) \<le> idx ! ax
                 \<or> \<not> ax < length idx \<longrightarrow> result1 idx = result idx)
      \<and> (\<forall>idx. ax < length idx \<and> written_at s e cnt \<le> idx ! ax
                 \<and> idx ! ax < written_at s e (cnt + contribution flag src)
               \<longrightarrow> slab_of flag ax oldkey s e src cnt result1 idx)"
proof (cases "flag \<in> set (axistags (slot_meta src))")
  case True
  let ?n = "contribution flag src"
  from ok True obtain sh where sh: "shape (slot_meta src) = Some sh" "ax < length sh"
    and ix: "index_of flag (axistags (slot_meta src)) = ax"
    by (auto simp: image_ok_def)
  have n: "?n = sh ! ax" using True sh ix by (simp add: contribution_def)
  have nn: "0 \<le> ?n" using ok by (simp add: image_ok_def)
  show ?thesis
  proof (cases "cnt + ?n \<ge> s \<and> s - cnt < ?n \<and> s + written_at s e cnt < e")
    case cond: True
    let ?begin = "if cnt < s then s - cnt else 0"
    let ?end = "if cnt + ?n > e then ?n - (cnt + ?n - e) else ?n"
    have be: "?begin = max 0 (s - cnt)" "?end = min ?n (e - cnt)" by auto
    have w: "written_at s e cnt + ?end - ?begin = written_at s e (cnt + ?n)"
      using written_at_write [OF nn] cond by blast
    have c: "(s \<le> cnt + sh ! ax \<and> s - cnt < sh ! ax \<and> s + written_at s e cnt < e) = True"
      using cond unfolding n by simp
    from ok True have "\<forall>r. length (fst r) = Suc (length oldkey) \<and> length (snd r) = length (fst r)
        \<longrightarrow> (\<exists>blk. request src r = Inr blk)"
      by (simp add: image_ok_def)
    from this [rule_format, of "sliceToRoi (insert_at ax (?begin, ?end) oldkey)"]
    obtain blk where blk: "request src (sliceToRoi (insert_at ax (?begin, ?end) oldkey)) = Inr blk"
      by auto
    let ?r1 = "write_slab ax (written_at s e cnt) (written_at s e (cnt + ?n)) blk result"
    have eq: "stack_images flag ax oldkey s e (src # rest) cnt (written_at s e cnt) result
        = stack_images flag ax oldkey s e rest (cnt + ?n) (written_at s e (cnt + ?n)) ?r1"
      unfolding n using True sh c blk [unfolded n] w [unfolded n] by (simp add: Let_def del: stack_images.simps(1))
    have miss: "\<forall>idx. idx ! ax < written_at s e cnt \<or> written_at s e (cnt + ?n) \<le> idx ! ax
                 \<or> \<not> ax < length idx \<longrightarrow> ?r1 idx = result idx"
      by (auto simp: write_slab_def)
    have hit: "\<forall>idx. ax < length idx \<and> written_at s e cnt \<le> idx ! ax
                 \<and> idx ! ax < written_at s e (cnt + ?n)
               \<longrightarrow> slab_of flag ax oldkey s e src cnt ?r1 idx"
      using True blk unfolding slab_of_def be by (auto simp: write_slab_def)
    from eq miss hit show ?thesis by blast
  next
    case nocond: False
    have w: "written_at s e (cnt + ?n) = written_at s e cnt"
      using written_at_skip [OF nn nocond] .
    have c: "(s \<le> cnt + sh ! ax \<and> s - cnt < sh ! ax \<and> s + written_at s e cnt < e) = False"
      using nocond unfolding n by simp
    have eq: "stack_images flag ax oldkey s e (src # rest) cnt (written_at s e cnt) result
        = stack_images flag ax oldkey s e rest (cnt + ?n) (written_at s e (cnt + ?n)) result"
      unfolding n using True sh w [unfolded n] by (simp add: c Let_def del: stack_images.simps(1))
    from eq w show ?thesis by auto
  qed
next
  case False
  have n: "contribution flag src = 1" using False by (simp add: contribution_def)
  show ?thesis
  proof (cases "cnt \<ge> s \<and> s + written_at s e cnt < e")
    case cond: True
    have w: "written_at s e cnt + 1 = written_at s e (cnt + 1)"
      using written_at_plane cond by blast
    have c: "(s \<le> cnt \<and> s + written_at s e cnt < e) = True" using cond by simp
    from ok False have "\<forall>r. length (fst r) = length oldkey \<and> length (snd r) = length (fst r)
        \<longrightarrow> (\<exists>blk. request src r = Inr blk)"
      by (simp add: image_ok_def)
    from this [rule_format, of "sliceToRoi oldkey"]
    obtain blk where blk: "request src (sliceToRoi oldkey) = Inr blk"
      by auto
    let ?r1 = "write_plane ax (written_at s e cnt) blk result"
    have eq: "stack_images flag ax oldkey s e (src # rest) cnt (written_at s e cnt) result
        = stack_images flag ax oldkey s e rest (cnt + 1) (written_at s e (cnt + 1)) ?r1"
      using False blk w by (simp add: c Let_def del: stack_images.simps(1))
    have miss: "\<forall>idx. idx ! ax < written_at s e cnt \<or> written_at s e (cnt + 1) \<le> idx ! ax
                 \<or> \<not> ax < length idx \<longrightarrow> ?r1 idx = result idx"
      using w by (auto simp: write_plane_def)
    have hit: "\<forall>idx. ax < length idx \<and> written_at s e cnt \<le> idx ! ax
                 \<and> idx ! ax < written_at s e (cnt + 1)
               \<longrightarrow> slab_of flag ax oldkey s e src cnt ?r1 idx"
      using False blk w unfolding slab_of_def by (auto simp: write_plane_def)
    from eq miss hit show ?thesis unfolding n by blast
  next
    case nocond: False
    have w: "written_at s e (cnt + 1) = written_at s e cnt"
      using written_at_no_plane [OF nocond] .
    have c: "(s \<le> cnt \<and> s + written_at s e cnt < e) = False" using nocond by simp
    have eq: "stack_images flag ax oldkey s e (src # rest) cnt (written_at s e cnt) result
        = stack_images flag ax oldkey s e rest (cnt + 1) (written_at s e (cnt + 1)) result"
      using False w by (simp add: c Let_def del: stack_images.simps(1))
    from eq w show ?thesis unfolding n by auto
  qed
qed

lemma slab_of_cong:
  "out idx = out' idx \<Longrightarrow> slab_of flag ax oldkey s e src c out' idx \<Longrightarrow> slab_of flag ax oldkey s e src c out idx"
  by (simp add: slab_of_def)

lemma stack_images_correct:
  assumes "\<forall>src \<in> set srcs. image_ok flag ax oldkey src"
  shows "\<exists>out. stack_images flag ax oldkey s e srcs cnt (written_at s e cnt) result = Inr out
      \<and> (\<forall>idx. idx ! ax < written_at s e cnt
                 \<or> written_at s e (cnt + offset flag srcs (length srcs)) \<le> idx ! ax
                 \<or> \<not> ax < length idx \<longrightarrow> out idx = result idx)
      \<and> (\<forall>j idx. j < length srcs \<and> ax < length idx
                 \<and> written_at s e (cnt + offset flag srcs j) \<le> idx ! ax
                 \<and> idx ! ax < written_at s e (cnt + offset flag srcs (Suc j))
               \<longrightarrow> slab_of flag ax oldkey s e (srcs ! j) (cnt + offset flag srcs j) out idx)"
  using assms
proof (induction srcs arbitrary: cnt result)
  case Nil
  show ?case by simp
next
  case (Cons src rest)
  let ?n = "contribution flag src"
  let ?W = "written_at s e"
  have ok: "image_ok flag ax oldkey src" and oks: "\<forall>src \<in> set rest. image_ok flag ax oldkey src"
    using Cons.prems by auto
  have nn: "0 \<le> ?n" using ok by (simp add: image_ok_def)
  have nns: "\<forall>src \<in> set rest. 0 \<le> contribution flag src" using oks by (simp add: image_ok_def)
  from stack_images_step [OF ok, of s e rest cnt result]
  obtain result1 where
    eq: "stack_images flag ax oldkey s e (src # rest) cnt (?W cnt) result
        = stack_images flag ax oldkey s e rest (cnt + ?n) (?W (cnt + ?n)) result1"
    and miss1: "\<And>idx. idx ! ax < ?W cnt \<or> ?W (cnt + ?n) \<le> idx ! ax \<or> \<not> ax < length idx
                  \<Longrightarrow> result1 idx = result idx"
    and hit1: "\<And>idx. ax < length idx \<Longrightarrow> ?W cnt \<le> idx ! ax \<Longrightarrow> idx ! ax < ?W (cnt + ?n)
                  \<Longrightarrow> slab_of flag ax oldkey s e src cnt result1 idx"
    by blast
  from Cons.IH [OF oks, of "cnt + ?n" result1]
  obtain out where
    run: "stack_images flag ax oldkey s e rest (cnt + ?n) (?W (cnt + ?n)) result1 = Inr out"
    and miss2: "\<And>idx. idx ! ax < ?W (cnt + ?n)
                  \<or> ?W (cnt + ?n + offset flag rest (length rest)) \<le> idx ! ax
                  \<or> \<not> ax < length idx \<Longrightarrow> out idx = result1 idx"
    and hit2: "\<And>j idx. j < length rest \<Longrightarrow> ax < length idx
                  \<Longrightarrow> ?W (cnt + ?n + offset flag rest j) \<le> idx ! ax
                  \<Longrightarrow> idx ! ax < ?W (cnt + ?n + offset flag rest (Suc j))
                  \<Longrightarrow> slab_of flag ax oldkey s e (rest ! j) (cnt + ?n + offset flag rest j) out idx"
    by blast
  have m1: "?W cnt \<le> ?W (cnt + ?n)" using nn by (intro written_at_mono) simp
  have m2: "?W (cnt + ?n) \<le> ?W (cnt + ?n + offset flag rest (length rest))"
    using offset_nonneg [OF nns, of "length rest"] by (intro written_at_mono) simp
  have miss: "out idx = result idx"
    if "idx ! ax < ?W cnt \<or> ?W (cnt + offset flag (src # rest) (length (src # rest))) \<le> idx ! ax
          \<or> \<not> ax < length idx" for idx
  proof -
    from that have a: "idx ! ax < ?W cnt \<or> ?W (cnt + ?n + offset flag rest (length rest)) \<le> idx ! ax
          \<or> \<not> ax < length idx"
      by (simp add: add.assoc)
    then have "out idx = result1 idx" using m1 by (intro miss2) auto
    moreover have "result1 idx = result idx" using a m2 by (intro miss1) auto
    ultimately show ?thesis by simp
  qed
  have hit: "slab_of flag ax oldkey s e ((src # rest) ! j) (cnt + offset flag (src # rest) j) out idx"
    if "j < length (src # rest)" "ax < length idx"
      "?W (cnt + offset flag (src # rest) j) \<le> idx ! ax"
      "idx ! ax < ?W (cnt + offset flag (src # rest) (Suc j))" for j idx
  proof (cases j)
    case 0
    with that have r: "?W cnt \<le> idx ! ax" "idx ! ax < ?W (cnt + ?n)"
      by (simp_all add: offset_def)
    then have "out idx = result1 idx" by (intro miss2) simp
    moreover have "slab_of flag ax oldkey s e src cnt result1 idx"
      using hit1 [OF that(2) r] .
    ultimately show ?thesis using 0 by (auto intro: slab_of_cong)
  next
    case (Suc j')
    with that have "j' < length rest" "?W (cnt + ?n + offset flag rest j') \<le> idx ! ax"
      "idx ! ax < ?W (cnt + ?n + offset flag rest (Suc j'))"
      by (simp_all add: add.assoc)
    from hit2 [OF this(1) that(2) this(2,3)] show ?thesis
      using Suc by (simp add: add.assoc)
  qed
  from eq run miss hit show ?case by (intro exI [of _ out]) simp
qed

lemma interval_table_Cons:
  "map (\<lambda>j. (c + offset flag (src # rest) j, c + offset flag (src # rest) (Suc j))) [0..<Suc (length rest)]
     = (c, c + contribution flag src)
       # map (\<lambda>j. (c + contribution flag src + offset flag rest j,
                    c + contribution flag src + offset flag rest (Suc j))) [0..<length rest]"
proof -
  have "[0..<Suc (length rest)] = 0 # map Suc [0..<length rest]"
    by (simp add: upt_conv_Cons map_Suc_upt del: upt_Suc)
  then show ?thesis by (simp add: add.assoc comp_def offset_def del: upt_Suc)
qed

lemma setRightShape_loop_connected:
  assumes "setRightShape_loop flag AI srcs v = Inr v'" and "\<forall>src \<in> set srcs. has_upstream src"
  shows "v_c v' = v_c v + offset flag srcs (length srcs)
       \<and> v_intervals v' = v_intervals v
            @ map (\<lambda>j. (v_c v + offset flag srcs j, v_c v + offset flag srcs (Suc j))) [0..<length srcs]
       \<and> (\<forall>src \<in> set srcs. flag \<in> set (axistags (slot_meta src)) \<longrightarrow>
            (\<exists>sh. shape (slot_meta src) = Some sh \<and> index_of flag (axistags (slot_meta src)) < length sh))
       \<and> (srcs \<noteq> [] \<longrightarrow> v_inTagKeys v' = axistags (slot_meta (last srcs)))"
  using assms
proof (induction srcs arbitrary: v)
  case Nil
  then show ?case by simp
next
  case (Cons src rest)
  have up: "has_upstream src" and ups: "\<forall>src \<in> set rest. has_upstream src"
    using Cons.prems(2) by auto
  show ?case
  proof (cases "flag \<in> set (axistags (slot_meta src))")
    case True
    with Cons.prems(1) up obtain sh where sh: "shape (slot_meta src) = Some sh"
      and lt: "index_of flag (axistags (slot_meta src)) < length sh"
      by (auto simp: Let_def split: option.splits if_splits)
    have n: "contribution flag src = sh ! index_of flag (axistags (slot_meta src))"
      using True sh by (simp add: contribution_def)
    from Cons.prems(1) up True sh lt obtain v1 where
      run: "setRightShape_loop flag AI rest v1 = Inr v'"
      and v1: "v_c v1 = v_c v + contribution flag src"
        "v_intervals v1 = v_intervals v @ [(v_c v, v_c v + contribution flag src)]"
        "v_inTagKeys v1 = axistags (slot_meta src)"
      by (auto simp: Let_def n)
    note ih = Cons.IH [OF run ups]
    have 1: "v_c v' = v_c v + offset flag (src # rest) (length (src # rest))"
      using ih v1 by (simp add: add.assoc)
    have "v_intervals v' = v_intervals v @ ((v_c v, v_c v + contribution flag src)
       # map (\<lambda>j. (v_c v + contribution flag src + offset flag rest j,
                    v_c v + contribution flag src + offset flag rest (Suc j))) [0..<length rest])"
      using ih v1 by simp
    then have 2: "v_intervals v' = v_intervals v
            @ map (\<lambda>j. (v_c v + offset flag (src # rest) j, v_c v + offset flag (src # rest) (Suc j)))
                [0..<length (src # rest)]"
      by (simp only: interval_table_Cons [symmetric] length_Cons)
    have 3: "\<forall>src \<in> set (src # rest). flag \<in> set (axistags (slot_meta src)) \<longrightarrow>
            (\<exists>sh. shape (slot_meta src) = Some sh \<and> index_of flag (axistags (slot_meta src)) < length sh)"
      using ih sh lt by simp
    have 4: "v_inTagKeys v' = axistags (slot_meta (last (src # rest)))"
    proof (cases "rest = []")
      case True
      with run v1 show ?thesis by simp
    next
      case False
      with ih show ?thesis by simp
    qed
    from 1 2 3 4 show ?thesis by blast
  next
    case False
    have n: "contribution flag src = 1" using False by (simp add: contribution_def)
    from Cons.prems(1) up False obtain v1 where
      run: "setRightShape_loop flag AI rest v1 = Inr v'"
      and v1: "v_c v1 = v_c v + contribution flag src"
        "v_intervals v1 = v_intervals v @ [(v_c v, v_c v + contribution flag src)]"
        "v_inTagKeys v1 = axistags (slot_meta src)"
      by (auto simp: Let_def n)
    note ih = Cons.IH [OF run ups]
    have 1: "v_c v' = v_c v + offset flag (src # rest) (length (src # rest))"
      using ih v1 by (simp add: add.assoc)
    have "v_intervals v' = v_intervals v @ ((v_c v, v_c v + contribution flag src)
       # map (\<lambda>j. (v_c v + contribution flag src + offset flag rest j,
                    v_c v + contribution flag src + offset flag rest (Suc j))) [0..<length rest])"
      using ih v1 by simp
    then have 2: "v_intervals v' = v_intervals v
            @ map (\<lambda>j. (v_c v + offset flag (src # rest) j, v_c v + offset flag (src # rest) (Suc j)))
                [0..<length (src # rest)]"
      by (simp only: interval_table_Cons [symmetric] length_Cons)
    have 3: "\<forall>src \<in> set (src # rest). flag \<in> set (axistags (slot_meta src)) \<longrightarrow>
            (\<exists>sh. shape (slot_meta src) = Some sh \<and> index_of flag (axistags (slot_meta src)) < length sh)"
      using ih False by simp
    have 4: "v_inTagKeys v' = axistags (slot_meta (last (src # rest)))"
    proof (cases "rest = []")
      case True
      with run v1 show ?thesis by simp
    next
      case False
      with ih show ?thesis by simp
    qed
    from 1 2 3 4 show ?thesis by blast
  qed
qed

lemma sliceToRoi_roiToSlice:
  "length start = length stop \<Longrightarrow> sliceToRoi (roiToSlice start stop) = (start, stop)"
  by (simp add: sliceToRoi_def roiToSlice_def)

lemma map_insert_at: "map f (insert_at k v xs) = insert_at k (f v) (map f xs)"
  by (simp add: insert_at_def take_map drop_map)

lemma map_pop_at: "map f (pop_at k xs) = pop_at k (map f xs)"
  by (simp add: pop_at_def take_map drop_map)

lemma insert_at_pop_at: "ax < length xs \<Longrightarrow> insert_at ax v (pop_at ax xs) = xs[ax := v]"
  by (simp add: insert_at_def pop_at_def upd_conv_take_nth_drop min_def)

lemma sliceToRoi_insert_pop:
  assumes "length start = length stop" "ax < length start"
  shows "sliceToRoi (insert_at ax (b, e) (pop_at ax (roiToSlice start stop))) = (start[ax := b], stop[ax := e])"
  using assms
  by (simp add: sliceToRoi_def roiToSlice_def map_insert_at map_pop_at insert_at_pop_at map_update)

lemma sliceToRoi_pop:
  assumes "length start = length stop"
  shows "sliceToRoi (pop_at ax (roiToSlice start stop)) = (pop_at ax start, pop_at ax stop)"
  using assms by (simp add: sliceToRoi_def roiToSlice_def map_pop_at)

lemma pop_at_length: "ax < length xs \<Longrightarrow> length (pop_at ax xs) = length xs - 1"
  by (simp add: pop_at_def)

lemma offset_Suc:
  "j < length srcs \<Longrightarrow> offset flag srcs (Suc j) = offset flag srcs j + contribution flag (srcs ! j)"
  by (simp add: offset_def take_Suc_conv_app_nth)

lemma written_at_0: "0 \<le> s \<Longrightarrow> written_at s e 0 = 0"
  by (simp add: written_at_def)

lemma setRightShape_fields:
  assumes "setRightShape op = Inr op'"
  shows "\<exists>v. setRightShape_loop (stacker_AxisFlag op) (stacker_AxisIndex op) (stacker_Images op)
               \<lparr>v_c = 0, v_intervals = [], v_inTagKeys = [], v_axisindex = None, v_Output = stacker_Output op\<rparr> = Inr v
           \<and> stacker_intervals op' = v_intervals v"
    and "stacker_Images op' = stacker_Images op"
    and "stacker_AxisFlag op' = stacker_AxisFlag op"
  using assms
  by (auto simp: setRightShape_def Let_def split: sum.splits option.splits if_splits)

lemma stacker_execute_slabs:
  assumes cfg: "setRightShape op = Inr op'"
    and conn: "\<forall>src \<in> set (stacker_Images op). has_upstream src"
    and cons: "\<forall>src \<in> set (stacker_Images op). stacker_AxisFlag op \<in> set (axistags (slot_meta src)) \<longrightarrow>
                 index_of (stacker_AxisFlag op) (axistags (slot_meta src))
                   = index_of (stacker_AxisFlag op) (axistags (stacker_Output op'))"
    and nn: "\<forall>src \<in> set (stacker_Images op). 0 \<le> contribution (stacker_AxisFlag op) src"
    and req: "\<forall>src \<in> set (stacker_Images op). \<forall>r.
                 length (fst r) = (if stacker_AxisFlag op \<in> set (axistags (slot_meta src))
                                   then length start else length start - 1)
                 \<and> length (snd r) = length (fst r)
                 \<longrightarrow> (\<exists>blk. request src r = Inr blk)"
    and out: "shape (stacker_Output op') = Some outshape"
    and len: "length stop = length start"
    and ax: "index_of (stacker_AxisFlag op) (axistags (stacker_Output op')) < length start"
    and lo: "0 \<le> start ! index_of (stacker_AxisFlag op) (axistags (stacker_Output op'))"
    and inside: "list_all (\<lambda>(a, b). a \<le> b) (zip stop outshape)"
  shows "\<exists>out. OpMultiArrayStacker_execute op' (start, stop) result = Inr out
      \<and> (\<forall>j idx. j < length (stacker_Images op)
             \<and> index_of (stacker_AxisFlag op) (axistags (stacker_Output op')) < length idx
             \<and> written_at (start ! index_of (stacker_AxisFlag op) (axistags (stacker_Output op')))
                   (stop ! index_of (stacker_AxisFlag op) (axistags (stacker_Output op')))
                   (offset (stacker_AxisFlag op) (stacker_Images op) j)
                 \<le> idx ! index_of (stacker_AxisFlag op) (axistags (stacker_Output op'))
             \<and> idx ! index_of (stacker_AxisFlag op) (axistags (stacker_Output op'))
                 < written_at (start ! index_of (stacker_AxisFlag op) (axistags (stacker_Output op')))
                   (stop ! index_of (stacker_AxisFlag op) (axistags (stacker_Output op')))
                   (offset (stacker_AxisFlag op) (stacker_Images op) (Suc j))
           \<longrightarrow> slab_of (stacker_AxisFlag op) (index_of (stacker_AxisFlag op) (axistags (stacker_Output op')))
                 (pop_at (index_of (stacker_AxisFlag op) (axistags (stacker_Output op'))) (roiToSlice start stop))
                 (start ! index_of (stacker_AxisFlag op) (axistags (stacker_Output op')))
                 (stop ! index_of (stacker_AxisFlag op) (axistags (stacker_Output op')))
                 (stacker_Images op ! j) (offset (stacker_AxisFlag op) (stacker_Images op) j) out idx)"
proof -
  let ?flag = "stacker_AxisFlag op"
  let ?ax = "index_of ?flag (axistags (stacker_Output op'))"
  let ?srcs = "stacker_Images op"
  let ?oldkey = "pop_at ?ax (roiToSlice start stop)"
  from setRightShape_fields [OF cfg] obtain v where
    loop: "setRightShape_loop ?flag (stacker_AxisIndex op) ?srcs
               \<lparr>v_c = 0, v_intervals = [], v_inTagKeys = [], v_axisindex = None, v_Output = stacker_Output op\<rparr> = Inr v"
    and imgs: "stacker_Images op' = ?srcs" and flag: "stacker_AxisFlag op' = ?flag"
    by blast
  note tab = setRightShape_loop_connected [OF loop conn]
  have klen: "length (roiToSlice start stop) = length start"
    using len by (simp add: roiToSlice_def)
  have oldlen: "length ?oldkey = length start - 1"
    using ax klen by (simp add: pop_at_length)
  have oks: "\<forall>src \<in> set ?srcs. image_ok ?flag ?ax ?oldkey src"
  proof
    fix src assume src: "src \<in> set ?srcs"
    have 1: "?flag \<in> set (axistags (slot_meta src)) \<longrightarrow>
        index_of ?flag (axistags (slot_meta src)) = ?ax
        \<and> (\<exists>sh. shape (slot_meta src) = Some sh \<and> ?ax < length sh)"
      using tab cons src by fastforce
    have 2: "0 \<le> contribution ?flag src" using nn src by blast
    have 3: "\<forall>r. length (fst r) = (if ?flag \<in> set (axistags (slot_meta src)) then Suc (length ?oldkey) else length ?oldkey)
              \<and> length (snd r) = length (fst r)
            \<longrightarrow> (\<exists>blk. request src r = Inr blk)"
      using req src ax oldlen by auto
    from 1 2 3 show "image_ok ?flag ?ax ?oldkey src" unfolding image_ok_def by blast
  qed
  from stack_images_correct [OF oks, of "start ! ?ax" "stop ! ?ax" 0 result]
  obtain out where
    run: "stack_images ?flag ?ax ?oldkey (start ! ?ax) (stop ! ?ax) ?srcs 0 (written_at (start ! ?ax) (stop ! ?ax) 0) result = Inr out"
    and hit: "\<forall>j idx. j < length ?srcs \<and> ?ax < length idx
                 \<and> written_at (start ! ?ax) (stop ! ?ax) (0 + offset ?flag ?srcs j) \<le> idx ! ?ax
                 \<and> idx ! ?ax < written_at (start ! ?ax) (stop ! ?ax) (0 + offset ?flag ?srcs (Suc j))
               \<longrightarrow> slab_of ?flag ?ax ?oldkey (start ! ?ax) (stop ! ?ax) (?srcs ! j) (0 + offset ?flag ?srcs j) out idx"
    by blast
  have ex: "OpMultiArrayStacker_execute op' (start, stop) result = Inr out"
    using run out inside ax klen len
    by (simp add: OpMultiArrayStacker_execute_def Let_def sliceToRoi_roiToSlice imgs flag written_at_0 [OF lo])
  from ex hit show ?thesis by simp
qed

lemma clip_arith:
  assumes "max o' s \<le> s + i" "s + i < min (o' + n) e"
  shows "written_at s e o' \<le> i" "i < written_at s e (o' + n)"
    "max 0 (s - o') = max o' s - o'" "min n (e - o') = min (o' + n) e - o'"
    "i - written_at s e o' = s + i - max o' s"
  using assms by (auto simp: written_at_def max_def min_def split: if_splits)

lemma offset_cover:
  assumes "\<forall>src \<in> set srcs. 0 \<le> contribution flag src"
    and "0 \<le> g" and "g < offset flag srcs (length srcs)"
  shows "\<exists>j < length srcs. offset flag srcs j \<le> g \<and> g < offset flag srcs (Suc j)"
  using assms
proof (induction srcs arbitrary: g)
  case Nil
  then show ?case by simp
next
  case (Cons src rest)
  show ?case
  proof (cases "g < contribution flag src")
    case True
    with Cons.prems(2) have "offset flag (src # rest) 0 \<le> g \<and> g < offset flag (src # rest) (Suc 0)"
      by simp
    then show ?thesis by (intro exI [of _ 0]) simp
  next
    case False
    have nn: "\<forall>src \<in> set rest. 0 \<le> contribution flag src" using Cons.prems(1) by simp
    have g: "0 \<le> g - contribution flag src" "g - contribution flag src < offset flag rest (length rest)"
      using False Cons.prems(3) by simp_all
    from Cons.IH [OF nn g] obtain j where "j < length rest"
      "offset flag rest j \<le> g - contribution flag src" "g - contribution flag src < offset flag rest (Suc j)"
      by blast
    then have "Suc j < length (src # rest) \<and> offset flag (src # rest) (Suc j) \<le> g
        \<and> g < offset flag (src # rest) (Suc (Suc j))"
      by simp
    then show ?thesis by blast
  qed
qed

lemma setRightShape_extent:
  assumes cfg: "setRightShape op = Inr op'"
    and conn: "\<forall>src \<in> set (stacker_Images op). has_upstream src"
    and ne: "stacker_Images op \<noteq> []"
    and last: "stacker_AxisFlag op \<in> set (axistags (slot_meta (last (stacker_Images op))))"
    and out: "shape (stacker_Output op') = Some outshape"
  shows "outshape ! index_of (stacker_AxisFlag op) (axistags (stacker_Output op'))
           = offset (stacker_AxisFlag op) (stacker_Images op) (length (stacker_Images op))"
proof -
  from setRightShape_fields(1) [OF cfg] obtain v where
    loop: "setRightShape_loop (stacker_AxisFlag op) (stacker_AxisIndex op) (stacker_Images op)
               \<lparr>v_c = 0, v_intervals = [], v_inTagKeys = [], v_axisindex = None, v_Output = stacker_Output op\<rparr> = Inr v"
    by blast
  note tab = setRightShape_loop_connected [OF loop conn]
  have tags: "stacker_AxisFlag op \<in> set (v_inTagKeys v)" using tab ne last by simp
  have c: "v_c v = offset (stacker_AxisFlag op) (stacker_Images op) (length (stacker_Images op))"
    using tab by simp
  from cfg loop ne tags obtain newshape where
    "index_of (stacker_AxisFlag op) (axistags (v_Output v)) < length newshape"
    and "stacker_Output op' = (v_Output v)\<lparr>shape := Some (newshape[index_of (stacker_AxisFlag op) (axistags (v_Output v)) := v_c v])\<rparr>"
    by (auto simp: setRightShape_def Let_def split: option.splits if_splits)
  with out c show ?thesis by auto
qed

text \<open>
  C1. Let the stacker be configured by \<open>setRightShape\<close> with every image connected, every
  image that has the stacking axis having it at the position it has in the output, no
  negative extents, and upstream slots that answer requests of the right dimensionality.
  Then the interval table holds, for each image in order, the pair of the cumulative sum of
  the contributions before it and that sum plus its own contribution (its extent along the
  axis if it has the axis, else 1). And for every ROI that starts at a non-negative
  position of the stacking axis and ends inside the output, \<open>execute\<close> returns a result in
  which the slab between an image's recorded interval, clipped to the ROI, holds what that
  image delivers for the translated local ROI: the ROI with the clipped interval shifted by
  the image's offset on the stacking axis if the image has the axis, and the ROI without
  the stacking axis otherwise. When the last image has the stacking axis, the extent of the
  output along the axis is the sum of all contributions; and when the ROI ends within that
  sum, every plane of the result lies in the clipped interval of some image, so that the
  result is the concatenation of these slabs in the order of the images.
\<close>

theorem C1_stacker_execute:
  assumes cfg: "setRightShape op = Inr op'"
    and flag: "flag = stacker_AxisFlag op"
    and images: "images = stacker_Images op"
    and ax: "ax = index_of flag (axistags (stacker_Output op'))"
    and conn: "\<forall>src \<in> set images. has_upstream src"
    and cons: "\<forall>src \<in> set images. flag \<in> set (axistags (slot_meta src)) \<longrightarrow>
                 index_of flag (axistags (slot_meta src)) = ax"
    and nn: "\<forall>src \<in> set images. 0 \<le> contribution flag src"
    and req: "\<forall>src \<in> set images. \<forall>r.
                 length (fst r) = (if flag \<in> set (axistags (slot_meta src)) then length start else length start - 1)
                 \<and> length (snd r) = length (fst r)
                 \<longrightarrow> (\<exists>blk. request src r = Inr blk)"
    and out: "shape (stacker_Output op') = Some outshape"
    and len: "length stop = length start"
    and axlt: "ax < length start"
    and lo: "0 \<le> start ! ax"
    and inside: "\<forall>k < length stop. k < length outshape \<longrightarrow> stop ! k \<le> outshape ! k"
  shows "length (stacker_intervals op') = length images
       \<and> (\<forall>j < length images. stacker_intervals op' ! j
             = (offset flag images j, offset flag images j + contribution flag (images ! j)))
       \<and> (\<exists>out. OpMultiArrayStacker_execute op' (start, stop) result = Inr out
            \<and> (\<forall>j idx. j < length images \<and> length idx = length start
                  \<and> max (fst (stacker_intervals op' ! j)) (start ! ax) \<le> start ! ax + idx ! ax
                  \<and> start ! ax + idx ! ax < min (snd (stacker_intervals op' ! j)) (stop ! ax)
                \<longrightarrow> (if flag \<in> set (axistags (slot_meta (images ! j)))
                     then \<exists>blk. request (images ! j)
                                  (start[ax := max (fst (stacker_intervals op' ! j)) (start ! ax)
                                                 - fst (stacker_intervals op' ! j)],
                                   stop[ax := min (snd (stacker_intervals op' ! j)) (stop ! ax)
                                                 - fst (stacker_intervals op' ! j)]) = Inr blk
                            \<and> out idx = blk (idx[ax := start ! ax + idx ! ax
                                                   - max (fst (stacker_intervals op' ! j)) (start ! ax)])
                     else \<exists>blk. request (images ! j) (pop_at ax start, pop_at ax stop) = Inr blk
                            \<and> out idx = blk (pop_at ax idx))))
       \<and> (images \<noteq> [] \<and> flag \<in> set (axistags (slot_meta (last images)))
            \<longrightarrow> outshape ! ax = offset flag images (length images))
       \<and> (\<forall>idx. 0 \<le> idx ! ax \<and> start ! ax + idx ! ax < stop ! ax
                 \<and> stop ! ax \<le> offset flag images (length images)
            \<longrightarrow> (\<exists>j < length images.
                   max (fst (stacker_intervals op' ! j)) (start ! ax) \<le> start ! ax + idx ! ax
                   \<and> start ! ax + idx ! ax < min (snd (stacker_intervals op' ! j)) (stop ! ax)))"
proof -
  from setRightShape_fields [OF cfg] obtain v where
    loop: "setRightShape_loop flag (stacker_AxisIndex op) images
               \<lparr>v_c = 0, v_intervals = [], v_inTagKeys = [], v_axisindex = None, v_Output = stacker_Output op\<rparr> = Inr v"
    and iv: "stacker_intervals op' = v_intervals v"
    unfolding flag images by blast
  note tab = setRightShape_loop_connected [OF loop conn]
  have ivs: "stacker_intervals op' = map (\<lambda>j. (offset flag images j, offset flag images (Suc j))) [0..<length images]"
    using tab iv by simp
  have 1: "length (stacker_intervals op') = length images"
    by (simp add: ivs)
  have 2: "stacker_intervals op' ! j = (offset flag images j, offset flag images j + contribution flag (images ! j))"
    if "j < length images" for j
    using that by (simp add: ivs offset_Suc del: upt_Suc)
  have ins: "list_all (\<lambda>(a, b). a \<le> b) (zip stop outshape)"
    using inside by (auto simp: list_all_length)
  from stacker_execute_slabs [OF cfg conn [unfolded images] cons [unfolded images flag ax]
      nn [unfolded images flag] req [unfolded images flag] out len axlt [unfolded ax flag] lo [unfolded ax flag] ins,
      of result]
  obtain out where
    ex: "OpMultiArrayStacker_execute op' (start, stop) result = Inr out"
    and hit: "\<And>j idx. j < length images \<Longrightarrow> ax < length idx
        \<Longrightarrow> written_at (start ! ax) (stop ! ax) (offset flag images j) \<le> idx ! ax
        \<Longrightarrow> idx ! ax < written_at (start ! ax) (stop ! ax) (offset flag images (Suc j))
        \<Longrightarrow> slab_of flag ax (pop_at ax (roiToSlice start stop)) (start ! ax) (stop ! ax)
              (images ! j) (offset flag images j) out idx"
    unfolding flag images ax by blast
  have 3: "if flag \<in> set (axistags (slot_meta (images ! j)))
           then \<exists>blk. request (images ! j)
                        (start[ax := max (fst (stacker_intervals op' ! j)) (start ! ax)
                                       - fst (stacker_intervals op' ! j)],
                         stop[ax := min (snd (stacker_intervals op' ! j)) (stop ! ax)
                                       - fst (stacker_intervals op' ! j)]) = Inr blk
                  \<and> out idx = blk (idx[ax := start ! ax + idx ! ax
                                         - max (fst (stacker_intervals op' ! j)) (start ! ax)])
           else \<exists>blk. request (images ! j) (pop_at ax start, pop_at ax stop) = Inr blk
                  \<and> out idx = blk (pop_at ax idx)"
    if j: "j < length images" and il: "length idx = length start"
      and a: "max (fst (stacker_intervals op' ! j)) (start ! ax) \<le> start ! ax + idx ! ax"
      and b: "start ! ax + idx ! ax < min (snd (stacker_intervals op' ! j)) (stop ! ax)"
    for j idx
  proof -
    let ?o = "offset flag images j" and ?n = "contribution flag (images ! j)"
    have a': "max ?o (start ! ax) \<le> start ! ax + idx ! ax"
      and b': "start ! ax + idx ! ax < min (?o + ?n) (stop ! ax)"
      using a b by (simp_all add: 2 [OF j])
    note ar = clip_arith [OF a' b']
    have "slab_of flag ax (pop_at ax (roiToSlice start stop)) (start ! ax) (stop ! ax)
              (images ! j) ?o out idx"
      using hit [OF j, of idx] il axlt ar(1,2) by (simp add: offset_Suc [OF j])
    then show ?thesis
      unfolding slab_of_def sliceToRoi_insert_pop [OF len [symmetric] axlt] sliceToRoi_pop [OF len [symmetric]]
        ar(3,4,5) 2 [OF j] fst_conv snd_conv .
  qed
  have 4: "outshape ! ax = offset flag images (length images)"
    if "images \<noteq> []" "flag \<in> set (axistags (slot_meta (last images)))"
    using setRightShape_extent [OF cfg conn [unfolded images] that [unfolded images flag] out]
    unfolding ax flag images .
  have 5: "\<exists>j < length images.
             max (fst (stacker_intervals op' ! j)) (start ! ax) \<le> start ! ax + idx ! ax
             \<and> start ! ax + idx ! ax < min (snd (stacker_intervals op' ! j)) (stop ! ax)"
    if "0 \<le> idx ! ax" "start ! ax + idx ! ax < stop ! ax" "stop ! ax \<le> offset flag images (length images)"
    for idx
  proof -
    have "0 \<le> start ! ax + idx ! ax" "start ! ax + idx ! ax < offset flag images (length images)"
      using that lo by simp_all
    from offset_cover [OF nn this] obtain j where j: "j < length images"
      and c: "offset flag images j \<le> start ! ax + idx ! ax" "start ! ax + idx ! ax < offset flag images (Suc j)"
      by blast
    have "max (fst (stacker_intervals op' ! j)) (start ! ax) \<le> start ! ax + idx ! ax
             \<and> start ! ax + idx ! ax < min (snd (stacker_intervals op' ! j)) (stop ! ax)"
      using c that(1,2) by (simp add: 2 [OF j] offset_Suc [OF j])
    with j show ?thesis by blast
  qed
  from 1 2 ex 3 4 5 show ?thesis by blast
qed

theorem C1_stacker_execute_witness:
  "setRightShape ex_stacker = Inr ex_stacker_configured
   \<and> stacker_intervals ex_stacker_configured = [(0, 2), (2, 5)]
   \<and> (\<exists>out. OpMultiArrayStacker_execute ex_stacker_configured ([1, 0], [4, 2]) (\<lambda>i. - 1) = Inr out
         \<and> out [0, 1] = 111 \<and> out [1, 0] = 200 \<and> out [2, 1] = 211)"
proof -
  let ?imgs = "[array_slot (example_meta [2, 2] [''x'', ''y'']) ex_a,
                array_slot (example_meta [3, 2] [''x'', ''y'']) ex_b]"
  have cfg: "setRightShape ex_stacker = Inr ex_stacker_configured"
    by (simp add: setRightShape_def ex_stacker_def ex_stacker_configured_def array_slot_def
        example_meta_def unset_meta_def assignFrom_def Let_def)
  have flag: "''x'' = stacker_AxisFlag ex_stacker" and images: "?imgs = stacker_Images ex_stacker"
    by (simp_all add: ex_stacker_def)
  have ax: "0 = index_of ''x'' (axistags (stacker_Output ex_stacker_configured))"
    by (simp add: ex_stacker_configured_def example_meta_def)
  have conn: "\<forall>src \<in> set ?imgs. has_upstream src"
    by (simp add: array_slot_def)
  have cons: "\<forall>src \<in> set ?imgs. ''x'' \<in> set (axistags (slot_meta src)) \<longrightarrow>
                 index_of ''x'' (axistags (slot_meta src)) = 0"
    by (simp add: array_slot_def example_meta_def)
  have nn: "\<forall>src \<in> set ?imgs. 0 \<le> contribution ''x'' src"
    by (simp add: array_slot_def example_meta_def contribution_def)
  have req: "\<forall>src \<in> set ?imgs. \<forall>r.
                 length (fst r) = (if ''x'' \<in> set (axistags (slot_meta src)) then length [1, 0::int] else length [1, 0::int] - 1)
                 \<and> length (snd r) = length (fst r)
                 \<longrightarrow> (\<exists>blk. request src r = Inr blk)"
    by (simp add: array_slot_def)
  have out: "shape (stacker_Output ex_stacker_configured) = Some [5, 2]"
    by (simp add: ex_stacker_configured_def example_meta_def)
  have inside: "\<forall>k < length [4, 2::int]. k < length [5, 2::int] \<longrightarrow> [4, 2::int] ! k \<le> [5, 2] ! k"
    by (simp add: less_Suc_eq all_conj_distrib)
  have len: "length [4, 2::int] = length [1, 0::int]" and axlt: "0 < length [1, 0::int]"
    and lo: "0 \<le> [1, 0::int] ! 0"
    by simp_all
  from C1_stacker_execute [OF cfg flag images ax conn cons nn req out len axlt lo inside, of "\<lambda>i. - 1"]
  obtain out where ex: "OpMultiArrayStacker_execute ex_stacker_configured ([1, 0], [4, 2]) (\<lambda>i. - 1) = Inr out"
    and slab: "\<forall>j idx. j < length ?imgs \<and> length idx = length [1, 0::int]
                  \<and> max (fst (stacker_intervals ex_stacker_configured ! j)) ([1, 0] ! 0) \<le> [1, 0] ! 0 + idx ! 0
                  \<and> [1, 0] ! 0 + idx ! 0 < min (snd (stacker_intervals ex_stacker_configured ! j)) ([4, 2] ! 0)
                \<longrightarrow> (if ''x'' \<in> set (axistags (slot_meta (?imgs ! j)))
                     then \<exists>blk. request (?imgs ! j)
                                  ([1, 0][0 := max (fst (stacker_intervals ex_stacker_configured ! j)) ([1, 0] ! 0)
                                                 - fst (stacker_intervals ex_stacker_configured ! j)],
                                   [4, 2][0 := min (snd (stacker_intervals ex_stacker_configured ! j)) ([4, 2] ! 0)
                                                 - fst (stacker_intervals ex_stacker_configured ! j)]) = Inr blk
                            \<and> out idx = blk (idx[0 := [1, 0] ! 0 + idx ! 0
                                                   - max (fst (stacker_intervals ex_stacker_configured ! j)) ([1, 0] ! 0)])
                     else \<exists>blk. request (?imgs ! j) (pop_at 0 [1, 0], pop_at 0 [4, 2]) = Inr blk
                            \<and> out idx = blk (pop_at 0 idx))"
    by blast
  have iv: "stacker_intervals ex_stacker_configured = [(0, 2), (2, 5)]"
    by (simp add: ex_stacker_configured_def)
  have 1: "out [0, 1] = 111"
    using slab [rule_format, of 0 "[0, 1]"] by (simp add: iv array_slot_def example_meta_def ex_a_def)
  have 2: "out [1, 0] = 200"
    using slab [rule_format, of 1 "[1, 0]"] by (simp add: iv array_slot_def example_meta_def ex_b_def)
  have 3: "out [2, 1] = 211"
    using slab [rule_format, of 1 "[2, 1]"] by (simp add: iv array_slot_def example_meta_def ex_b_def)
  from cfg iv ex 1 2 3 show ?thesis by blast
qed

subsection \<open>OpMultiArrayStacker.propagateDirty\<close>

text \<open>
  C3, as stated, fails: for the two stacked images of shapes (2, 2) and (3, 2), a dirty
  sub-box \<open>[0, 1) \<times> [0, 1)\<close> of the second image would have to be reported as
  \<open>[2, 3) \<times> [0, 1)\<close> of the output. The operator reports the whole output, the box
  \<open>[0, 5) \<times> [0, 2)\<close>.
\<close>

theorem C3_stacker_dirty_counterexample:
  "claimed_stacker_dirty ex_stacker_ready 1 ([0, 0], [1, 1]) = Region [2, 0] [3, 1]
   \<and> OpMultiArrayStacker_propagateDirty ex_stacker_ready Images_slot [1] ([0, 0], [1, 1]) = Inr [Everything]
   \<and> dirty_box [5, 2] Everything = ([0, 0], [5, 2])
   \<and> dirty_box [5, 2] Everything \<noteq> dirty_box [5, 2] (claimed_stacker_dirty ex_stacker_ready 1 ([0, 0], [1, 1]))"
  by (simp add: claimed_stacker_dirty_def ex_stacker_ready_def ex_stacker_configured_def ex_stacker_def
      example_meta_def OpMultiArrayStacker_propagateDirty_def propagateDirtyIfNewModTime_def dirty_box_def)

text \<open>
  The offsets never exceed the total extent, and the shape that \<open>setRightShape\<close> gives
  Output when the last image has the stacking axis: the shape of the first image with the
  total extent on that axis.
\<close>

lemma sum_list_take_le:
  "\<forall>x \<in> set xs. (0::int) \<le> x \<Longrightarrow> sum_list (take j xs) \<le> sum_list xs"
proof (induction xs arbitrary: j)
  case Nil
  show ?case by simp
next
  case (Cons x xs)
  show ?case
  proof (cases j)
    case 0
    with Cons.prems show ?thesis by (simp add: sum_list_nonneg)
  next
    case (Suc j')
    with Cons.IH [of j'] Cons.prems show ?thesis by simp
  qed
qed

lemma offset_le_total:
  assumes "\<forall>src \<in> set srcs. 0 \<le> contribution flag src"
  shows "offset flag srcs j \<le> offset flag srcs (length srcs)"
  using sum_list_take_le [of "map (contribution flag) srcs" j] assms
  by (simp add: offset_def take_map)

lemma setRightShape_shape:
  assumes cfg: "setRightShape op = Inr op'"
    and conn: "\<forall>src \<in> set (stacker_Images op). has_upstream src"
    and ne: "stacker_Images op \<noteq> []"
    and last: "stacker_AxisFlag op \<in> set (axistags (slot_meta (last (stacker_Images op))))"
    and hd: "shape (slot_meta (hd (stacker_Images op))) = Some sh0"
  shows "index_of (stacker_AxisFlag op) (axistags (stacker_Output op')) < length sh0
       \<and> shape (stacker_Output op')
           = Some (sh0[index_of (stacker_AxisFlag op) (axistags (stacker_Output op'))
                         := offset (stacker_AxisFlag op) (stacker_Images op) (length (stacker_Images op))])"
proof -
  from setRightShape_fields(1) [OF cfg] obtain v where
    loop: "setRightShape_loop (stacker_AxisFlag op) (stacker_AxisIndex op) (stacker_Images op)
               \<lparr>v_c = 0, v_intervals = [], v_inTagKeys = [], v_axisindex = None, v_Output = stacker_Output op\<rparr> = Inr v"
    by blast
  note tab = setRightShape_loop_connected [OF loop conn]
  have tags: "stacker_AxisFlag op \<in> set (v_inTagKeys v)" using tab ne last by simp
  have c: "v_c v = offset (stacker_AxisFlag op) (stacker_Images op) (length (stacker_Images op))"
    using tab by simp
  from cfg loop ne tags hd have
    "index_of (stacker_AxisFlag op) (axistags (v_Output v)) < length sh0
     \<and> stacker_Output op' = (v_Output v)\<lparr>shape := Some (sh0[index_of (stacker_AxisFlag op) (axistags (v_Output v)) := v_c v])\<rparr>"
    by (auto simp: setRightShape_def Let_def split: option.splits if_splits)
  with c show ?thesis by auto
qed


lemma stacker_dirty_within:
  assumes cfg: "setRightShape op0 = Inr op"
    and out: "shape (stacker_Output op) = Some outshape"
    and hd: "shape (slot_meta (hd (stacker_Images op0))) = Some sh0"
    and imgs: "\<forall>src \<in> set (stacker_Images op0).
                 has_upstream src
                 \<and> stacker_AxisFlag op0 \<in> set (axistags (slot_meta src))
                 \<and> index_of (stacker_AxisFlag op0) (axistags (slot_meta src))
                     = index_of (stacker_AxisFlag op0) (axistags (stacker_Output op))
                 \<and> (\<exists>sh. shape (slot_meta src) = Some sh \<and> length sh = length sh0
                       \<and> (\<forall>k < length sh0. 0 \<le> sh ! k
                            \<and> (k \<noteq> index_of (stacker_AxisFlag op0) (axistags (stacker_Output op))
                                 \<longrightarrow> sh ! k = sh0 ! k)))"
    and j: "j < length (stacker_Images op0)"
    and shj: "shape (slot_meta (stacker_Images op0 ! j)) = Some shj"
    and len: "length (fst r) = length shj" "length (snd r) = length shj"
    and inside: "\<forall>k < length shj. 0 \<le> fst r ! k \<and> snd r ! k \<le> shj ! k"
  shows "box_within (dirty_box outshape (claimed_stacker_dirty op j r)) (dirty_box outshape Everything)"
proof -
  let ?flag = "stacker_AxisFlag op0"
  let ?srcs = "stacker_Images op0"
  define ax where "ax = index_of ?flag (axistags (stacker_Output op))"
  define total where "total = offset ?flag ?srcs (length ?srcs)"
  have conn: "\<forall>src \<in> set ?srcs. has_upstream src" using imgs by blast
  have ne: "?srcs \<noteq> []" using j by auto
  have lastin: "last ?srcs \<in> set ?srcs" using ne by simp
  have last: "?flag \<in> set (axistags (slot_meta (last ?srcs)))" using imgs lastin by blast
  from setRightShape_shape [OF cfg conn ne last hd]
  have axlt: "ax < length sh0" and outsh: "outshape = sh0[ax := total]"
    using out unfolding ax_def total_def by simp_all
  from setRightShape_fields [OF cfg] obtain v where
    loop: "setRightShape_loop ?flag (stacker_AxisIndex op0) ?srcs
               \<lparr>v_c = 0, v_intervals = [], v_inTagKeys = [], v_axisindex = None, v_Output = stacker_Output op0\<rparr> = Inr v"
    and iv: "stacker_intervals op = v_intervals v" and fl: "stacker_AxisFlag op = ?flag"
    by blast
  note tab = setRightShape_loop_connected [OF loop conn]
  have off: "fst (stacker_intervals op ! j) = offset ?flag ?srcs j"
    using tab j unfolding iv by simp
  have jin: "?srcs ! j \<in> set ?srcs" using j by simp
  have contr: "\<And>src sh. src \<in> set ?srcs \<Longrightarrow> shape (slot_meta src) = Some sh
                  \<Longrightarrow> contribution ?flag src = sh ! ax \<and> length sh = length sh0
                      \<and> (\<forall>k < length sh0. 0 \<le> sh ! k \<and> (k \<noteq> ax \<longrightarrow> sh ! k = sh0 ! k))"
  proof -
    fix src sh assume s: "src \<in> set ?srcs" and sh: "shape (slot_meta src) = Some sh"
    from imgs s have a: "?flag \<in> set (axistags (slot_meta src))"
      and b: "index_of ?flag (axistags (slot_meta src)) = ax"
      and c: "\<exists>sh'. shape (slot_meta src) = Some sh' \<and> length sh' = length sh0
                 \<and> (\<forall>k < length sh0. 0 \<le> sh' ! k \<and> (k \<noteq> ax \<longrightarrow> sh' ! k = sh0 ! k))"
      unfolding ax_def by blast+
    from c sh have d: "length sh = length sh0
                 \<and> (\<forall>k < length sh0. 0 \<le> sh ! k \<and> (k \<noteq> ax \<longrightarrow> sh ! k = sh0 ! k))" by auto
    have "contribution ?flag src = sh ! ax" using a b sh by (simp add: contribution_def)
    with d show "contribution ?flag src = sh ! ax \<and> length sh = length sh0
                      \<and> (\<forall>k < length sh0. 0 \<le> sh ! k \<and> (k \<noteq> ax \<longrightarrow> sh ! k = sh0 ! k))" by simp
  qed
  have nn: "\<forall>src \<in> set ?srcs. 0 \<le> contribution ?flag src"
  proof
    fix src assume s: "src \<in> set ?srcs"
    from imgs s obtain sh where sh: "shape (slot_meta src) = Some sh" by blast
    from contr [OF s sh] axlt show "0 \<le> contribution ?flag src" by simp
  qed
  note cj = contr [OF jin shj]
  have lj: "length shj = length sh0" using cj by simp
  have o0: "0 \<le> offset ?flag ?srcs j" using offset_nonneg [OF nn] .
  have "offset ?flag ?srcs (Suc j) \<le> total"
    unfolding total_def using offset_le_total [OF nn] .
  hence o1: "offset ?flag ?srcs j + shj ! ax \<le> total"
    using offset_Suc [OF j, of ?flag] cj by simp
  define S where "S = (fst r)[ax := fst r ! ax + offset ?flag ?srcs j]"
  define E where "E = (snd r)[ax := snd r ! ax + offset ?flag ?srcs j]"
  have claimed: "claimed_stacker_dirty op j r = Region S E"
    unfolding claimed_stacker_dirty_def Let_def fl off S_def E_def ax_def ..
  have lo: "list_all2 (\<le>) (map (\<lambda>_. 0) outshape) S"
    unfolding list_all2_conv_all_nth
  proof (intro conjI allI impI)
    show "length (map (\<lambda>_. 0) outshape) = length S"
      unfolding S_def outsh using len lj by simp
  next
    fix k assume "k < length (map (\<lambda>_. 0) outshape)"
    hence k: "k < length sh0" unfolding outsh by simp
    have "0 \<le> S ! k"
    proof (cases "k = ax")
      case True
      thus ?thesis unfolding S_def using inside k lj len o0 by simp
    next
      case False
      thus ?thesis unfolding S_def using inside k lj by simp
    qed
    thus "map (\<lambda>_. 0) outshape ! k \<le> S ! k" using k unfolding outsh by simp
  qed
  have hi: "list_all2 (\<le>) E outshape"
    unfolding list_all2_conv_all_nth
  proof (intro conjI allI impI)
    show "length E = length outshape"
      unfolding E_def outsh using len lj by simp
  next
    fix k assume "k < length E"
    hence k: "k < length sh0" unfolding E_def using len lj by simp
    show "E ! k \<le> outshape ! k"
    proof (cases "k = ax")
      case True
      have "snd r ! ax \<le> shj ! ax" using inside axlt lj by simp
      thus ?thesis unfolding E_def outsh True using axlt len lj o1 by simp
    next
      case False
      have "snd r ! k \<le> shj ! k" using inside k lj by simp
      moreover have "shj ! k = sh0 ! k" using cj k False by simp
      ultimately show ?thesis unfolding E_def outsh using False by simp
    qed
  qed
  show ?thesis
    unfolding claimed box_within_def dirty_box_def using lo hi by simp
qed

text \<open>
  C3, amended. When Output is ready, a notification on Images, AxisFlag or AxisIndex,
  whatever its sub-index and sub-box, marks the entire output dirty; when Output is not
  ready, nothing is reported. The entire output is never less than what the shift by the
  recorded offset would give: for a stacker configured by \<open>setRightShape\<close> whose images
  are all connected, all have the stacking axis at the position it has in the output, have
  no negative extent and agree with the first image on every other axis, and for a dirty
  sub-box that lies inside the shape of image \<open>j\<close>, the sub-box shifted along the stacking
  axis by the recorded offset of image \<open>j\<close> lies within the box of the entire output.
\<close>

theorem C3_stacker_propagateDirty:
  "(stacker_Output_ready op \<and> inputSlot \<in> {Images_slot, AxisFlag_slot, AxisIndex_slot}
      \<longrightarrow> OpMultiArrayStacker_propagateDirty op inputSlot subindex r = Inr [Everything])
   \<and> (\<not> stacker_Output_ready op
      \<longrightarrow> OpMultiArrayStacker_propagateDirty op inputSlot subindex r = Inr [])
   \<and> (setRightShape op0 = Inr op
       \<and> shape (stacker_Output op) = Some outshape
       \<and> shape (slot_meta (hd (stacker_Images op0))) = Some sh0
       \<and> (\<forall>src \<in> set (stacker_Images op0).
             has_upstream src
             \<and> stacker_AxisFlag op0 \<in> set (axistags (slot_meta src))
             \<and> index_of (stacker_AxisFlag op0) (axistags (slot_meta src))
                 = index_of (stacker_AxisFlag op0) (axistags (stacker_Output op))
             \<and> (\<exists>sh. shape (slot_meta src) = Some sh \<and> length sh = length sh0
                   \<and> (\<forall>k < length sh0. 0 \<le> sh ! k
                        \<and> (k \<noteq> index_of (stacker_AxisFlag op0) (axistags (stacker_Output op))
                             \<longrightarrow> sh ! k = sh0 ! k))))
       \<and> j < length (stacker_Images op0)
       \<and> shape (slot_meta (stacker_Images op0 ! j)) = Some shj
       \<and> length (fst r) = length shj \<and> length (snd r) = length shj
       \<and> (\<forall>k < length shj. 0 \<le> fst r ! k \<and> snd r ! k \<le> shj ! k)
      \<longrightarrow> box_within (dirty_box outshape (claimed_stacker_dirty op j r)) (dirty_box outshape Everything))"
proof (intro conjI impI)
  assume "stacker_Output_ready op \<and> inputSlot \<in> {Images_slot, AxisFlag_slot, AxisIndex_slot}"
  thus "OpMultiArrayStacker_propagateDirty op inputSlot subindex r = Inr [Everything]"
    by (auto simp: OpMultiArrayStacker_propagateDirty_def propagateDirtyIfNewModTime_def)
next
  assume "\<not> stacker_Output_ready op"
  thus "OpMultiArrayStacker_propagateDirty op inputSlot subindex r = Inr []"
    by (simp add: OpMultiArrayStacker_propagateDirty_def)
next
  assume a: "setRightShape op0 = Inr op
       \<and> shape (stacker_Output op) = Some outshape
       \<and> shape (slot_meta (hd (stacker_Images op0))) = Some sh0
       \<and> (\<forall>src \<in> set (stacker_Images op0).
             has_upstream src
             \<and> stacker_AxisFlag op0 \<in> set (axistags (slot_meta src))
             \<and> index_of (stacker_AxisFlag op0) (axistags (slot_meta src))
                 = index_of (stacker_AxisFlag op0) (axistags (stacker_Output op))
             \<and> (\<exists>sh. shape (slot_meta src) = Some sh \<and> length sh = length sh0
                   \<and> (\<forall>k < length sh0. 0 \<le> sh ! k
                        \<and> (k \<noteq> index_of (stacker_AxisFlag op0) (axistags (stacker_Output op))
                             \<longrightarrow> sh ! k = sh0 ! k))))
       \<and> j < length (stacker_Images op0)
       \<and> shape (slot_meta (stacker_Images op0 ! j)) = Some shj
       \<and> length (fst r) = length shj \<and> length (snd r) = length shj
       \<and> (\<forall>k < length shj. 0 \<le> fst r ! k \<and> snd r ! k \<le> shj ! k)"
  show "box_within (dirty_box outshape (claimed_stacker_dirty op j r)) (dirty_box outshape Everything)"
    by (rule stacker_dirty_within [where ?op0.0 = op0 and ?sh0.0 = sh0 and shj = shj])
       (use a in blast)+
qed

theorem C3_stacker_propagateDirty_witness:
  "OpMultiArrayStacker_propagateDirty ex_stacker_ready Images_slot [1] ([0, 0], [1, 1]) = Inr [Everything]
   \<and> OpMultiArrayStacker_propagateDirty ex_stacker_configured Images_slot [1] ([0, 0], [1, 1]) = Inr []
   \<and> setRightShape (ex_stacker\<lparr>stacker_Output_ready := True\<rparr>) = Inr ex_stacker_ready
   \<and> box_within (dirty_box [5, 2] (claimed_stacker_dirty ex_stacker_ready 1 ([0, 0], [1, 1])))
        (dirty_box [5, 2] Everything)"
proof -
  let ?op0 = "ex_stacker\<lparr>stacker_Output_ready := True\<rparr>"
  let ?r = "([0, 0], [1, 1]) :: roi"
  have ready: "stacker_Output_ready ex_stacker_ready" "\<not> stacker_Output_ready ex_stacker_configured"
    by (simp_all add: ex_stacker_ready_def ex_stacker_configured_def ex_stacker_def)
  have cfg: "setRightShape ?op0 = Inr ex_stacker_ready"
    by (simp add: setRightShape_def ex_stacker_def ex_stacker_ready_def ex_stacker_configured_def
        array_slot_def example_meta_def unset_meta_def assignFrom_def Let_def)
  have out: "shape (stacker_Output ex_stacker_ready) = Some [5, 2]"
    by (simp add: ex_stacker_ready_def ex_stacker_configured_def example_meta_def)
  have hd: "shape (slot_meta (hd (stacker_Images ?op0))) = Some [2, 2]"
    by (simp add: ex_stacker_def array_slot_def example_meta_def)
  have imgs: "\<forall>src \<in> set (stacker_Images ?op0).
             has_upstream src
             \<and> stacker_AxisFlag ?op0 \<in> set (axistags (slot_meta src))
             \<and> index_of (stacker_AxisFlag ?op0) (axistags (slot_meta src))
                 = index_of (stacker_AxisFlag ?op0) (axistags (stacker_Output ex_stacker_ready))
             \<and> (\<exists>sh. shape (slot_meta src) = Some sh \<and> length sh = length [2, 2 :: int]
                   \<and> (\<forall>k < length [2, 2 :: int]. 0 \<le> sh ! k
                        \<and> (k \<noteq> index_of (stacker_AxisFlag ?op0) (axistags (stacker_Output ex_stacker_ready))
                             \<longrightarrow> sh ! k = [2, 2] ! k)))"
    by (simp add: ex_stacker_def ex_stacker_ready_def ex_stacker_configured_def array_slot_def
        example_meta_def less_Suc_eq)
  have j: "1 < length (stacker_Images ?op0)" by (simp add: ex_stacker_def)
  have shj: "shape (slot_meta (stacker_Images ?op0 ! 1)) = Some [3, 2]"
    by (simp add: ex_stacker_def array_slot_def example_meta_def)
  have len: "length (fst ?r) = length [3, 2 :: int]" "length (snd ?r) = length [3, 2 :: int]" by simp_all
  have inside: "\<forall>k < length [3, 2 :: int]. 0 \<le> fst ?r ! k \<and> snd ?r ! k \<le> [3, 2] ! k"
    by (simp add: less_Suc_eq)
  show ?thesis
    using C3_stacker_propagateDirty [where op = ex_stacker_ready and inputSlot = Images_slot
        and subindex = "[1]" and r = ?r and ?op0.0 = ?op0 and outshape = "[5, 2]"
        and ?sh0.0 = "[2, 2]" and j = 1 and shj = "[3, 2]"]
      C3_stacker_propagateDirty [where op = ex_stacker_configured and inputSlot = Images_slot
        and subindex = "[1]" and r = ?r]
      ready cfg out hd imgs j shj len inside
    by blast
qed


subsection \<open>OpMultiArraySlicer2.propagateDirty\<close>

text \<open>
  C4. The code at an input where it departs from the statement: the slicer exposes the
  slices 2, 4 and 6 on \<open>Slices[0]\<close>, \<open>Slices[1]\<close> and \<open>Slices[2]\<close>. A dirty region covering
  position 2 of the sliced axis marks \<open>Slices[2]\<close>, the sub-slot that holds slice 6, not
  \<open>Slices[0]\<close>; a dirty region covering position 4 marks nothing, although slice 4 is exposed
  on \<open>Slices[1]\<close>. The propagated region has \<open>[0, 1)\<close> on the sliced axis and the other axis
  unchanged.
\<close>

theorem C4_slicer_dirty_wrong_subslot:
  "OpMultiArraySlicer2_setupOutputs ex_slicer = Inr ex_slicer_configured
   \<and> getSliceIndexes ex_slicer_configured = Inr [2, 4, 6]
   \<and> OpMultiArraySlicer2_propagateDirty ex_slicer_configured Input_slot ([2, 0], [3, 3])
       = Inr [(2, Region [0, 0] [1, 3])]
   \<and> OpMultiArraySlicer2_propagateDirty ex_slicer_configured Input_slot ([4, 0], [5, 3]) = Inr []"
  by (simp add: OpMultiArraySlicer2_setupOutputs_def OpMultiArraySlicer2_propagateDirty_def
      getSliceIndexes_def ex_slicer_configured_def ex_slicer_def array_slot_def example_meta_def
      assignFrom_def insert_at_def pop_at_def Let_def upto_rec1 numeral_3_eq_3)

subsection \<open>Slicing and stacking back\<close>

lemma slicer_setupOutputs_default:
  assumes sh: "shape m = Some sh" and a: "index_of flag (axistags m) < length sh"
  shows "OpMultiArraySlicer2_setupOutputs
           \<lparr>slicer_Input = array_slot m A, slicer_AxisFlag = flag, slicer_SliceIndexes = None, slicer_Slices = old\<rparr>
         = Inr \<lparr>slicer_Input = array_slot m A, slicer_AxisFlag = flag, slicer_SliceIndexes = None,
                slicer_Slices = replicate (nat (sh ! index_of flag (axistags m)))
                                  (m\<lparr>shape := Some (sh[index_of flag (axistags m) := 1])\<rparr>)\<rparr>"
proof -
  let ?a = "index_of flag (axistags m)"
  let ?n = "nat (sh ! ?a)"
  let ?M = "m\<lparr>shape := Some (sh[?a := 1])\<rparr>"
  let ?f = "\<lambda>old. let m' = (assignFrom old m)\<lparr>axistags := axistags m, shape := Some (insert_at ?a 1 (pop_at ?a sh))\<rparr>
                 in if drange m \<noteq> None then m'\<lparr>drange := drange m\<rparr> else m'"
  have f: "?f x = ?M" for x
    using a by (simp add: assignFrom_def insert_at_pop_at Let_def)
  have len: "length [0..sh ! ?a - 1] = ?n" by simp
  have "length (take ?n (old @ replicate ?n unset_meta)) = ?n" by simp
  moreover have fe: "?f = (\<lambda>_. ?M)" by (rule ext) (rule f)
  ultimately have "map ?f (take ?n (old @ replicate ?n unset_meta)) = replicate ?n ?M"
    by (simp only: fe map_replicate_const)
  then show ?thesis
    using sh a len
    by (simp add: OpMultiArraySlicer2_setupOutputs_def getSliceIndexes_def array_slot_def Let_def
        del: length_upto take_append)
qed

lemma slicer_execute_default:
  assumes sh: "shape m = Some sh" and a: "index_of flag (axistags m) < length sh"
    and k: "k < nat (sh ! index_of flag (axistags m))"
    and len: "length (snd r) = length (fst r)" and ar: "index_of flag (axistags m) < length (fst r)"
  shows "OpMultiArraySlicer2_execute
           \<lparr>slicer_Input = array_slot m A, slicer_AxisFlag = flag, slicer_SliceIndexes = None,
             slicer_Slices = replicate (nat (sh ! index_of flag (axistags m))) M\<rparr> k r
         = Inr (\<lambda>i. A (map2 (+) i ((fst r)[index_of flag (axistags m) := int k])))"
proof -
  let ?a = "index_of flag (axistags m)"
  have l: "length [0..sh ! ?a - 1] = nat (sh ! ?a)" by simp
  have n: "[0..sh ! ?a - 1] ! k = int k" using k by (simp add: nth_upto)
  have r: "sliceToRoi (roiToSlice (fst r) (snd r)) = (fst r, snd r)"
    using len by (simp add: sliceToRoi_roiToSlice)
  have l2: "length ((fst r)[?a := int k]) = length ((snd r)[?a := int k + 1])" using len by simp
  have kl: "length (roiToSlice (fst r) (snd r)) = length (fst r)" using len by (simp add: roiToSlice_def)
  show ?thesis
    using sh a k ar len kl
    by (simp add: OpMultiArraySlicer2_execute_def getSliceIndexes_def Let_def array_slot_def
        l n r insert_at_pop_at sliceToRoi_roiToSlice [OF l2] del: length_upto)
qed

lemma offset_uniform:
  assumes "\<forall>src \<in> set srcs. contribution flag src = 1"
  shows "offset flag srcs j = int (min j (length srcs))"
proof -
  have "sum_list (map (contribution flag) xs) = int (length xs)" if "set xs \<subseteq> set srcs" for xs
    using that assms by (induction xs) auto
  from this [of "take j srcs"] show ?thesis
    by (simp add: offset_def set_take_subset min.commute)
qed

lemma setRightShape_loop_uniform:
  assumes "\<forall>src \<in> set srcs. has_upstream src \<and> slot_meta src = M"
    and "flag \<in> set (axistags M)" and "shape M = Some shM" and "index_of flag (axistags M) < length shM"
  shows "\<exists>v'. setRightShape_loop flag AI srcs v = Inr v' \<and> (srcs \<noteq> [] \<longrightarrow> v_Output v' = M)"
  using assms(1)
proof (induction srcs arbitrary: v)
  case Nil
  show ?case by simp
next
  case (Cons src rest)
  let ?v1 = "\<lparr>v_c = v_c v + shM ! index_of flag (axistags M),
              v_intervals = v_intervals v @ [(v_c v, v_c v + shM ! index_of flag (axistags M))],
              v_inTagKeys = axistags M, v_axisindex = v_axisindex v, v_Output = M\<rparr>"
  have step: "setRightShape_loop flag AI (src # rest) v = setRightShape_loop flag AI rest ?v1"
  proof -
    have up: "has_upstream src" and sm: "slot_meta src = M" using Cons.prems by simp_all
    show ?thesis
      by (subst setRightShape_loop.simps(2))
         (simp add: Let_def assignFrom_def up sm assms(2-4) del: setRightShape_loop.simps)
  qed
  have rest: "\<forall>src \<in> set rest. has_upstream src \<and> slot_meta src = M"
    using Cons.prems by simp
  from Cons.IH [OF rest, of ?v1] obtain v' where
    run: "setRightShape_loop flag AI rest ?v1 = Inr v'" and o: "rest \<noteq> [] \<longrightarrow> v_Output v' = M"
    by blast
  have "v_Output v' = M"
  proof (cases "rest = []")
    case True
    with run have "v' = ?v1" by simp
    then show ?thesis by simp
  next
    case False
    with o show ?thesis by simp
  qed
  with step run show ?case by (intro exI [of _ v']) (simp del: setRightShape_loop.simps)
qed

lemma written_at_unit:
  assumes "0 \<le> i" "s + i < e"
  shows "written_at s e (s + i) = i" "written_at s e (s + i + 1) = i + 1"
  using assms by (auto simp: written_at_def max_def min_def)

lemma map2_add_shift:
  assumes "length idx = length start" "a < length start"
  shows "map2 (+) (idx[a := 0]) (start[a := start ! a + idx ! a]) = map2 (+) idx (start :: int list)"
  using assms by (intro nth_equalityI) (auto simp: nth_list_update)

lemma setRightShape_uniform:
  assumes "setRightShape_loop (stacker_AxisFlag op) (stacker_AxisIndex op) (stacker_Images op)
        \<lparr>v_c = 0, v_intervals = [], v_inTagKeys = [], v_axisindex = None, v_Output = stacker_Output op\<rparr> = Inr v"
    and "stacker_Images op \<noteq> []"
    and "shape (slot_meta (hd (stacker_Images op))) = Some sh1"
    and "stacker_AxisFlag op \<in> set (v_inTagKeys v)"
    and "axistags (v_Output v) \<noteq> []"
    and "index_of (stacker_AxisFlag op) (axistags (v_Output v)) < length sh1"
  shows "setRightShape op = Inr (op\<lparr>stacker_intervals := v_intervals v,
           stacker_Output := (v_Output v)\<lparr>shape := Some (sh1[index_of (stacker_AxisFlag op) (axistags (v_Output v)) := v_c v])\<rparr>\<rparr>)"
  using assms by (simp add: setRightShape_def Let_def)

text \<open>
  C2. Let an array \<open>A\<close> have the axis \<open>flag\<close> at position \<open>a\<close> with a positive extent. The
  slicer over \<open>A\<close> with the default slice indexes configures with one sub-slot per position
  of the axis; the stacker whose images are these sub-slots in order, stacking along the
  same axis, configures with the shape of \<open>A\<close> as its output shape; and for every ROI inside
  that shape, \<open>execute\<close> of the stacker returns a result whose element at every index of the
  ROI's box is the element of \<open>A\<close> at that index shifted by the start of the ROI.
\<close>

theorem C2_slice_then_stack_roundtrip:
  assumes sh: "shape m = Some sh"
    and fl: "flag \<in> set (axistags m)"
    and a: "a = index_of flag (axistags m)"
    and alt: "a < length sh"
    and pos: "0 < sh ! a"
    and ls: "length start = length sh" and le: "length stop = length sh"
    and lo: "0 \<le> start ! a"
    and inside: "\<forall>k < length sh. stop ! k \<le> sh ! k"
  shows "\<exists>sl st out.
      OpMultiArraySlicer2_setupOutputs
        \<lparr>slicer_Input = array_slot m A, slicer_AxisFlag = flag, slicer_SliceIndexes = None,
         slicer_Slices = old_slices\<rparr> = Inr sl
      \<and> int (length (slicer_Slices sl)) = sh ! a
      \<and> setRightShape (stack_slices sl old_output) = Inr st
      \<and> shape (stacker_Output st) = Some sh
      \<and> OpMultiArrayStacker_execute st (start, stop) result = Inr out
      \<and> (\<forall>idx. length idx = length sh \<and> (\<forall>k < length sh. 0 \<le> idx ! k \<and> idx ! k < stop ! k - start ! k)
            \<longrightarrow> out idx = A (map2 (+) idx start))"
proof -
  let ?n = "nat (sh ! a)"
  let ?M = "m\<lparr>shape := Some (sh[a := 1])\<rparr>"
  let ?sl = "\<lparr>slicer_Input = array_slot m A, slicer_AxisFlag = flag, slicer_SliceIndexes = None,
              slicer_Slices = replicate ?n ?M\<rparr>"
  let ?op = "stack_slices ?sl old_output"
  let ?imgs = "map (connect_Slices ?sl) [0..< ?n]"
  have configured: "OpMultiArraySlicer2_setupOutputs
        \<lparr>slicer_Input = array_slot m A, slicer_AxisFlag = flag, slicer_SliceIndexes = None,
         slicer_Slices = old_slices\<rparr> = Inr ?sl"
    using slicer_setupOutputs_default [OF sh alt [unfolded a], of A old_slices] by (simp add: a)
  have nslices: "int (length (slicer_Slices ?sl)) = sh ! a" using pos by simp
  have imgs: "stacker_Images ?op = ?imgs" and opflag: "stacker_AxisFlag ?op = flag"
    and opai: "stacker_AxisIndex ?op = None" and opout: "stacker_Output ?op = old_output"
    by (simp_all add: stack_slices_def)
  have img: "has_upstream src \<and> slot_meta src = ?M \<and> (\<exists>k < ?n. src = connect_Slices ?sl k)"
    if "src \<in> set ?imgs" for src
    using that by (auto simp: connect_Slices_def)
  have ne: "?imgs \<noteq> []" using pos by simp
  have Mflag: "flag \<in> set (axistags ?M)" and Mshape: "shape ?M = Some (sh[a := 1])"
    and Mix: "index_of flag (axistags ?M) = a" and Mlt: "index_of flag (axistags ?M) < length (sh[a := 1])"
    using fl a alt by simp_all
  have uni: "\<forall>src \<in> set ?imgs. has_upstream src \<and> slot_meta src = ?M" using img by blast
  have conn: "\<forall>src \<in> set ?imgs. has_upstream src" using img by blast
  have one: "\<forall>src \<in> set ?imgs. contribution flag src = 1"
  proof
    fix src assume "src \<in> set ?imgs"
    from img [OF this] have sm: "slot_meta src = ?M" by blast
    show "contribution flag src = 1"
      unfolding contribution_def sm using fl alt a by simp
  qed
  let ?v0 = "\<lparr>v_c = 0, v_intervals = [], v_inTagKeys = [], v_axisindex = None, v_Output = old_output\<rparr>"
  from setRightShape_loop_uniform [OF uni Mflag Mshape Mlt, of None ?v0] ne
  obtain v where loop: "setRightShape_loop flag None ?imgs ?v0 = Inr v" and vout: "v_Output v = ?M"
    by blast
  note tab = setRightShape_loop_connected [OF loop conn]
  have vc: "v_c v = sh ! a"
    using tab pos by (simp add: offset_uniform [OF one])
  have lastM: "slot_meta (last ?imgs) = ?M" using img [of "last ?imgs"] ne last_in_set by blast
  have vtags: "v_inTagKeys v = axistags m" using tab ne lastM by simp
  have hdM: "slot_meta (hd ?imgs) = ?M" using img [of "hd ?imgs"] ne hd_in_set by blast
  let ?st = "?op\<lparr>stacker_intervals := v_intervals v, stacker_Output := ?M\<lparr>shape := Some sh\<rparr>\<rparr>"
  have restored: "(sh[a := 1])[a := sh ! a] = sh" by simp
  have loop': "setRightShape_loop (stacker_AxisFlag ?op) (stacker_AxisIndex ?op) (stacker_Images ?op)
        \<lparr>v_c = 0, v_intervals = [], v_inTagKeys = [], v_axisindex = None, v_Output = stacker_Output ?op\<rparr> = Inr v"
    unfolding imgs opflag opai opout by (rule loop)
  have ne': "stacker_Images ?op \<noteq> []" unfolding imgs by (rule ne)
  have hd': "shape (slot_meta (hd (stacker_Images ?op))) = Some (sh[a := 1])"
    unfolding imgs hdM by simp
  have fl': "stacker_AxisFlag ?op \<in> set (v_inTagKeys v)" unfolding opflag vtags by (rule fl)
  have ix': "index_of (stacker_AxisFlag ?op) (axistags (v_Output v)) = a"
    unfolding opflag vout using a by simp
  have ix'': "index_of (stacker_AxisFlag ?op) (axistags ?M) = a"
    unfolding opflag using a by simp
  have lt': "index_of (stacker_AxisFlag ?op) (axistags (v_Output v)) < length (sh[a := 1])"
    unfolding ix' using alt by simp
  have tg': "axistags (v_Output v) \<noteq> []" unfolding vout using fl by auto
  have cfg: "setRightShape ?op = Inr ?st"
    using setRightShape_uniform [OF loop' ne' hd' fl' tg' lt'] unfolding vout ix'' vc restored .
  have stout: "shape (stacker_Output ?st) = Some sh" by simp
  have stax: "index_of (stacker_AxisFlag ?op) (axistags (stacker_Output ?st)) = a"
    unfolding opflag using a by simp
  have cons: "\<forall>src \<in> set (stacker_Images ?op). stacker_AxisFlag ?op \<in> set (axistags (slot_meta src)) \<longrightarrow>
                 index_of (stacker_AxisFlag ?op) (axistags (slot_meta src))
                   = index_of (stacker_AxisFlag ?op) (axistags (stacker_Output ?st))"
    unfolding stax unfolding imgs opflag
  proof (intro ballI impI)
    fix src assume "src \<in> set ?imgs"
    from img [OF this] have "slot_meta src = ?M" by blast
    then show "index_of flag (axistags (slot_meta src)) = a" using a by simp
  qed
  have nn: "\<forall>src \<in> set (stacker_Images ?op). 0 \<le> contribution (stacker_AxisFlag ?op) src"
    unfolding imgs opflag using one by simp
  have req: "\<forall>src \<in> set (stacker_Images ?op). \<forall>r.
                 length (fst r) = (if stacker_AxisFlag ?op \<in> set (axistags (slot_meta src))
                                   then length start else length start - 1)
                 \<and> length (snd r) = length (fst r)
                 \<longrightarrow> (\<exists>blk. request src r = Inr blk)"
    unfolding imgs opflag
  proof (intro ballI allI impI)
    fix src and r :: roi
    assume src: "src \<in> set ?imgs"
      and r: "length (fst r) = (if flag \<in> set (axistags (slot_meta src)) then length start else length start - 1)
                 \<and> length (snd r) = length (fst r)"
    from img [OF src] obtain k where k: "k < ?n" "src = connect_Slices ?sl k" and sm: "slot_meta src = ?M" by blast
    have lr: "length (fst r) = length sh" "length (snd r) = length (fst r)"
      using r sm fl ls by simp_all
    from slicer_execute_default [OF sh alt [unfolded a] k(1) [unfolded a] lr(2), of A ?M] lr(1) alt
    show "\<exists>blk. request src r = Inr blk"
      by (simp add: k(2) connect_Slices_def a)
  qed
  have ins: "list_all (\<lambda>(a, b). a \<le> b) (zip stop sh)"
    using inside le by (auto simp: list_all_length)
  have len': "length stop = length start" using le ls by simp
  have ax': "index_of (stacker_AxisFlag ?op) (axistags (stacker_Output ?st)) < length start"
    unfolding stax using alt ls by simp
  have lo': "0 \<le> start ! index_of (stacker_AxisFlag ?op) (axistags (stacker_Output ?st))"
    unfolding stax by (rule lo)
  from stacker_execute_slabs [OF cfg conn [folded imgs] cons nn req stout len' ax' lo' ins, of result]
  obtain out where
    ex: "OpMultiArrayStacker_execute ?st (start, stop) result = Inr out"
    and hit: "\<And>j idx. j < length ?imgs \<Longrightarrow> a < length idx
        \<Longrightarrow> written_at (start ! a) (stop ! a) (offset flag ?imgs j) \<le> idx ! a
        \<Longrightarrow> idx ! a < written_at (start ! a) (stop ! a) (offset flag ?imgs (Suc j))
        \<Longrightarrow> slab_of flag a (pop_at a (roiToSlice start stop)) (start ! a) (stop ! a)
              (?imgs ! j) (offset flag ?imgs j) out idx"
    unfolding stax unfolding imgs opflag by blast
  have point: "out idx = A (map2 (+) idx start)"
    if il: "length idx = length sh" and box: "\<forall>k < length sh. 0 \<le> idx ! k \<and> idx ! k < stop ! k - start ! k"
    for idx
  proof -
    let ?i = "idx ! a" and ?s = "start ! a" and ?e = "stop ! a"
    let ?j = "nat (?s + ?i)"
    have i0: "0 \<le> ?i" and ie: "?s + ?i < ?e" using box alt by auto
    have ej: "?e \<le> sh ! a" using inside alt by blast
    have j: "?j < ?n" "int ?j = ?s + ?i" using i0 ie ej lo by auto
    have jl: "?j < length ?imgs" using j by simp
    have "length ?imgs = ?n" by simp
    then have mn: "min ?j (length ?imgs) = ?j" "min (Suc ?j) (length ?imgs) = Suc ?j"
      using j(1) by linarith+
    have oj: "offset flag ?imgs ?j = ?s + ?i" "offset flag ?imgs (Suc ?j) = ?s + ?i + 1"
      unfolding offset_uniform [OF one] mn using j(2) by simp_all
    note w = written_at_unit [OF i0 ie]
    have "slab_of flag a (pop_at a (roiToSlice start stop)) ?s ?e (?imgs ! ?j) (offset flag ?imgs ?j) out idx"
      using hit [OF jl, of idx] il alt w by (simp add: oj)
    moreover have tagj: "flag \<in> set (axistags (slot_meta (?imgs ! ?j)))"
      using img [of "?imgs ! ?j"] jl fl nth_mem [OF jl] by simp
    ultimately obtain blk where
      rq: "request (?imgs ! ?j) (sliceToRoi (insert_at a (max 0 (?s - (?s + ?i)),
              min (contribution flag (?imgs ! ?j)) (?e - (?s + ?i))) (pop_at a (roiToSlice start stop)))) = Inr blk"
      and o: "out idx = blk (idx[a := ?i - written_at ?s ?e (?s + ?i)])"
      unfolding slab_of_def oj by auto
    let ?r = "(start[a := max 0 (?s - (?s + ?i))], stop[a := min (contribution flag (?imgs ! ?j)) (?e - (?s + ?i))])"
    have rr: "sliceToRoi (insert_at a (max 0 (?s - (?s + ?i)),
              min (contribution flag (?imgs ! ?j)) (?e - (?s + ?i))) (pop_at a (roiToSlice start stop))) = ?r"
      using sliceToRoi_insert_pop [of start stop a] ls le alt by simp
    define r where "r = ?r"
    have lr: "length (snd r) = length (fst r)" "index_of flag (axistags m) < length (fst r)"
      using ls le alt by (simp_all add: r_def a)
    have rq': "request (?imgs ! ?j) r = Inr blk" using rq unfolding rr r_def .
    have imj: "?imgs ! ?j = connect_Slices ?sl ?j" using j(1) by simp
    have "request (?imgs ! ?j) r = OpMultiArraySlicer2_execute ?sl ?j r"
      unfolding imj by (simp add: connect_Slices_def)
    also have "\<dots> = Inr (\<lambda>i. A (map2 (+) i ((fst r)[a := int ?j])))"
      using slicer_execute_default [OF sh alt [unfolded a] j(1) [unfolded a] lr, of A ?M, folded a] .
    finally have "blk = (\<lambda>i. A (map2 (+) i ((fst r)[a := int ?j])))"
      using rq' by simp
    moreover have "(fst r)[a := int ?j] = start[a := ?s + ?i]"
      unfolding r_def j(2) by simp
    ultimately have blk: "blk = (\<lambda>i. A (map2 (+) i (start[a := ?s + ?i])))"
      by simp
    have "out idx = A (map2 (+) (idx[a := 0]) (start[a := ?s + ?i]))"
      using o w(1) by (simp add: blk)
    then show ?thesis
      using map2_add_shift [of idx start a] il ls alt by simp
  qed
  from configured nslices cfg stout ex point show ?thesis by blast
qed

theorem C2_slice_then_stack_roundtrip_witness:
  "\<exists>sl st out.
      OpMultiArraySlicer2_setupOutputs
        \<lparr>slicer_Input = array_slot (example_meta [3, 2] [''x'', ''y'']) ex_a, slicer_AxisFlag = ''x'',
         slicer_SliceIndexes = None, slicer_Slices = []\<rparr> = Inr sl
      \<and> int (length (slicer_Slices sl)) = 3
      \<and> setRightShape (stack_slices sl unset_meta) = Inr st
      \<and> shape (stacker_Output st) = Some [3, 2]
      \<and> OpMultiArrayStacker_execute st ([1, 0], [3, 2]) (\<lambda>i. - 1) = Inr out
      \<and> out [0, 0] = 110 \<and> out [1, 1] = 121"
proof -
  have sh: "shape (example_meta [3, 2] [''x'', ''y'']) = Some [3, 2]"
    and fl: "''x'' \<in> set (axistags (example_meta [3, 2] [''x'', ''y'']))"
    and a: "0 = index_of ''x'' (axistags (example_meta [3, 2] [''x'', ''y'']))"
    by (simp_all add: example_meta_def)
  have alt: "0 < length [3, 2::int]" and pos: "0 < [3, 2::int] ! 0"
    and ls: "length [1, 0::int] = length [3, 2::int]" and le: "length [3, 2::int] = length [3, 2::int]"
    and lo: "0 \<le> [1, 0::int] ! 0"
    by simp_all
  have inside: "\<forall>k < length [3, 2::int]. [3, 2::int] ! k \<le> [3, 2] ! k" by simp
  from C2_slice_then_stack_roundtrip [OF sh fl a alt pos ls le lo inside, of ex_a "[]" unset_meta "\<lambda>i. - 1"]
  obtain sl st out where
    1: "OpMultiArraySlicer2_setupOutputs
        \<lparr>slicer_Input = array_slot (example_meta [3, 2] [''x'', ''y'']) ex_a, slicer_AxisFlag = ''x'',
         slicer_SliceIndexes = None, slicer_Slices = []\<rparr> = Inr sl"
    and 2: "int (length (slicer_Slices sl)) = [3, 2] ! 0"
    and 3: "setRightShape (stack_slices sl unset_meta) = Inr st"
    and 4: "shape (stacker_Output st) = Some [3, 2]"
    and 5: "OpMultiArrayStacker_execute st ([1, 0], [3, 2]) (\<lambda>i. - 1) = Inr out"
    and 6: "\<forall>idx. length idx = length [3, 2::int]
              \<and> (\<forall>k < length [3, 2::int]. 0 \<le> idx ! k \<and> idx ! k < [3, 2] ! k - [1, 0] ! k)
            \<longrightarrow> out idx = ex_a (map2 (+) idx [1, 0])"
    by blast
  have b1: "\<forall>k < length [3, 2::int]. 0 \<le> [0, 0::int] ! k \<and> [0, 0::int] ! k < [3, 2] ! k - [1, 0] ! k"
    by (simp add: less_Suc_eq all_conj_distrib)
  have b2: "\<forall>k < length [3, 2::int]. 0 \<le> [1, 1::int] ! k \<and> [1, 1::int] ! k < [3, 2] ! k - [1, 0] ! k"
    by (simp add: less_Suc_eq all_conj_distrib)
  have 7: "out [0, 0] = 110" using 6 [rule_format, of "[0, 0]"] b1 by (simp add: ex_a_def)
  have 8: "out [1, 1] = 121" using 6 [rule_format, of "[1, 1]"] b2 by (simp add: ex_a_def)
  from 1 2 3 4 5 7 8 show ?thesis by (intro exI [of _ sl] exI [of _ st] exI [of _ out]) simp
qed

end
